theory Spec2Isabelle
  imports Complex_Main
begin

section \<open>VoidFinder: the functions of voidfinder\_functions.py\<close>

text \<open>
  Numbers. A float64 value is a finite value (the real number it stands for, with the
  negative zero apart), an infinity or NaN. The special cases of the operations follow
  IEEE 754 as numpy applies it: a division by zero gives an infinity or NaN (numpy warns and
  goes on), \<open>arcsin\<close> outside \<open>[-1, 1]\<close> gives NaN, the builtin \<open>int\<close> raises on NaN
  and on an infinity. How an exact result that is not zero is rounded, what the library
  functions \<open>arctan\<close>, \<open>arcsin\<close> and \<open>np.linalg.norm\<close> return on finite arguments,
  and the value of \<open>np.pi\<close>, are given by a floating point unit that every function
  takes as its first argument; a property proved for every unit holds for float64.
  Python integers are \<open>int\<close>.
\<close>

subsection \<open>Python errors and indexing\<close>

datatype py_error = IndexError | ValueError | OverflowError | KeyError | NameError

definition bind_err :: "py_error + 'a \<Rightarrow> ('a \<Rightarrow> py_error + 'b) \<Rightarrow> py_error + 'b" where
  "bind_err r f = (case r of Inl e \<Rightarrow> Inl e | Inr v \<Rightarrow> f v)"

text \<open>\<open>xs[i]\<close>: a negative index counts from the end, an index out of range raises.\<close>

definition getitem :: "'a list \<Rightarrow> int \<Rightarrow> py_error + 'a" where
  "getitem xs i =
     (let len = int (length xs); j = (if i < 0 then len + i else i)
      in if 0 \<le> j \<and> j < len then Inr (xs ! nat j) else Inl IndexError)"

subsection \<open>float64 values\<close>

text \<open>\<open>Fin 0\<close> is the positive zero, \<open>NZero\<close> the negative zero.\<close>

datatype npfloat = Fin real | NZero | PInf | NInf | NaN

fun fval :: "npfloat \<Rightarrow> real" where
  "fval (Fin v) = v"
| "fval NZero = 0"
| "fval PInf = 0"
| "fval NInf = 0"
| "fval NaN = 0"

fun ffinite :: "npfloat \<Rightarrow> bool" where
  "ffinite (Fin v) = True"
| "ffinite NZero = True"
| "ffinite PInf = False"
| "ffinite NInf = False"
| "ffinite NaN = False"

fun fzero :: "npfloat \<Rightarrow> bool" where
  "fzero (Fin v) = (v = 0)"
| "fzero NZero = True"
| "fzero PInf = False"
| "fzero NInf = False"
| "fzero NaN = False"

fun finf :: "npfloat \<Rightarrow> bool" where
  "finf PInf = True"
| "finf NInf = True"
| "finf (Fin v) = False"
| "finf NZero = False"
| "finf NaN = False"

text \<open>The sign bit.\<close>

fun fneg :: "npfloat \<Rightarrow> bool" where
  "fneg (Fin v) = (v < 0)"
| "fneg NZero = True"
| "fneg NInf = True"
| "fneg PInf = False"
| "fneg NaN = False"

definition signed_zero :: "bool \<Rightarrow> npfloat" where
  "signed_zero s = (if s then NZero else Fin 0)"

definition signed_inf :: "bool \<Rightarrow> npfloat" where
  "signed_inf s = (if s then NInf else PInf)"

text \<open>
  The floating point unit: \<open>rnd\<close> rounds an exact result that is not zero to a float64
  (to a finite value, to a zero on underflow, to an infinity on overflow); \<open>atan64\<close> and
  \<open>asin64\<close> are the library functions on a finite argument that is not zero (\<open>asin64\<close>
  on \<open>[-1, 1]\<close>); \<open>atan_inf\<close> is the \<open>arctan\<close> of plus infinity; \<open>norm64\<close> is
  \<open>np.linalg.norm\<close> of a row of three; \<open>pi64\<close> is \<open>np.pi\<close>.
\<close>

record fpu =
  rnd :: "real \<Rightarrow> npfloat"
  atan64 :: "real \<Rightarrow> real"
  atan_inf :: real
  asin64 :: "real \<Rightarrow> real"
  norm64 :: "npfloat \<times> npfloat \<times> npfloat \<Rightarrow> npfloat"
  pi64 :: real

text \<open>\<open>a / b\<close>, \<open>a * b\<close> and \<open>a + b\<close>.\<close>

definition fdiv :: "fpu \<Rightarrow> npfloat \<Rightarrow> npfloat \<Rightarrow> npfloat" where
  "fdiv fp a b =
     (if a = NaN \<or> b = NaN then NaN
      else if finf a then (if finf b then NaN else signed_inf (fneg a \<noteq> fneg b))
      else if finf b then signed_zero (fneg a \<noteq> fneg b)
      else if fzero b then (if fzero a then NaN else signed_inf (fneg a \<noteq> fneg b))
      else if fzero a then signed_zero (fneg a \<noteq> fneg b)
      else rnd fp (fval a / fval b))"

definition fmul :: "fpu \<Rightarrow> npfloat \<Rightarrow> npfloat \<Rightarrow> npfloat" where
  "fmul fp a b =
     (if a = NaN \<or> b = NaN then NaN
      else if finf a \<or> finf b
      then (if fzero a \<or> fzero b then NaN else signed_inf (fneg a \<noteq> fneg b))
      else if fzero a \<or> fzero b then signed_zero (fneg a \<noteq> fneg b)
      else rnd fp (fval a * fval b))"

definition fadd :: "fpu \<Rightarrow> npfloat \<Rightarrow> npfloat \<Rightarrow> npfloat" where
  "fadd fp a b =
     (if a = NaN \<or> b = NaN then NaN
      else if finf a then (if finf b \<and> a \<noteq> b then NaN else a)
      else if finf b then b
      else if fzero a \<and> fzero b then signed_zero (fneg a \<and> fneg b)
      else if fzero a then b
      else if fzero b then a
      else if fval a + fval b = 0 then Fin 0
      else rnd fp (fval a + fval b))"

definition fsub :: "fpu \<Rightarrow> npfloat \<Rightarrow> npfloat \<Rightarrow> npfloat" where
  "fsub fp a b =
     (if a = NaN \<or> b = NaN then NaN
      else if finf a then (if finf b \<and> a = b then NaN else a)
      else if finf b then signed_inf (\<not> fneg b)
      else if fzero a \<and> fzero b then signed_zero (fneg a \<and> \<not> fneg b)
      else if fzero a then Fin (- fval b)
      else if fzero b then a
      else if fval a - fval b = 0 then Fin 0
      else rnd fp (fval a - fval b))"

text \<open>Comparisons with a finite number; every comparison with NaN but \<open>!=\<close> is False.\<close>

fun fless :: "npfloat \<Rightarrow> real \<Rightarrow> bool" where
  "fless (Fin v) c = (v < c)"
| "fless NZero c = (0 < c)"
| "fless PInf c = False"
| "fless NInf c = True"
| "fless NaN c = False"

fun fgreater :: "npfloat \<Rightarrow> real \<Rightarrow> bool" where
  "fgreater (Fin v) c = (v > c)"
| "fgreater NZero c = (0 > c)"
| "fgreater PInf c = True"
| "fgreater NInf c = False"
| "fgreater NaN c = False"

fun fle :: "npfloat \<Rightarrow> real \<Rightarrow> bool" where
  "fle (Fin v) c = (v \<le> c)"
| "fle NZero c = (0 \<le> c)"
| "fle PInf c = False"
| "fle NInf c = True"
| "fle NaN c = False"

fun fge :: "npfloat \<Rightarrow> real \<Rightarrow> bool" where
  "fge (Fin v) c = (v \<ge> c)"
| "fge NZero c = (0 \<ge> c)"
| "fge PInf c = True"
| "fge NInf c = False"
| "fge NaN c = False"

text \<open>\<open>a != 0\<close>.\<close>

definition fnonzero :: "npfloat \<Rightarrow> bool" where
  "fnonzero a = (\<not> fzero a)"

text \<open>\<open>np.arctan\<close> and \<open>np.arcsin\<close>.\<close>

fun np_arctan :: "fpu \<Rightarrow> npfloat \<Rightarrow> npfloat" where
  "np_arctan fp (Fin v) = (if v = 0 then Fin 0 else Fin (atan64 fp v))"
| "np_arctan fp NZero = NZero"
| "np_arctan fp PInf = Fin (atan_inf fp)"
| "np_arctan fp NInf = Fin (- atan_inf fp)"
| "np_arctan fp NaN = NaN"

fun np_arcsin :: "fpu \<Rightarrow> npfloat \<Rightarrow> npfloat" where
  "np_arcsin fp (Fin v) =
     (if v = 0 then Fin 0 else if - 1 \<le> v \<and> v \<le> 1 then Fin (asin64 fp v) else NaN)"
| "np_arcsin fp NZero = NZero"
| "np_arcsin fp PInf = NaN"
| "np_arcsin fp NInf = NaN"
| "np_arcsin fp NaN = NaN"

text \<open>
  Truncation towards zero, which \<open>int(v)\<close> and \<open>astype(int)\<close> apply to a finite value.
  \<open>int\<close> raises on NaN and on an infinity; \<open>astype(int)\<close> raises nothing and stores
  the least int64 for NaN, for an infinity and for a value outside int64.
\<close>

definition trunc :: "real \<Rightarrow> int" where
  "trunc v = (if 0 \<le> v then \<lfloor>v\<rfloor> else \<lceil>v\<rceil>)"

fun py_int :: "npfloat \<Rightarrow> py_error + int" where
  "py_int (Fin v) = Inr (trunc v)"
| "py_int NZero = Inr 0"
| "py_int PInf = Inl OverflowError"
| "py_int NInf = Inl OverflowError"
| "py_int NaN = Inl ValueError"

fun astype_int :: "npfloat \<Rightarrow> int" where
  "astype_int (Fin v) =
     (if - (2 ^ 63) \<le> trunc v \<and> trunc v < 2 ^ 63 then trunc v else - (2 ^ 63))"
| "astype_int NZero = 0"
| "astype_int PInf = - (2 ^ 63)"
| "astype_int NInf = - (2 ^ 63)"
| "astype_int NaN = - (2 ^ 63)"

text \<open>An integer as a float, as in the product of an integer and a float.\<close>

definition float_of_int :: "fpu \<Rightarrow> int \<Rightarrow> npfloat" where
  "float_of_int fp n =
     (if n = 0 then Fin 0
      else if \<bar>n\<bar> \<le> 2 ^ 53 then Fin (real_of_int n)
      else rnd fp (real_of_int n))"

subsection \<open>Module constants\<close>

definition RtoD :: "fpu \<Rightarrow> npfloat" where
  "RtoD fp = fdiv fp (Fin 180) (Fin (pi64 fp))"

definition DtoR :: "fpu \<Rightarrow> npfloat" where
  "DtoR fp = fdiv fp (Fin (pi64 fp)) (Fin 180)"

definition dec_offset :: int where
  "dec_offset = - 90"

subsection \<open>The survey mask: \<open>not_in_mask\<close> and \<open>in_mask\<close>\<close>

type_synonym point = "npfloat \<times> npfloat \<times> npfloat"

text \<open>One boolean array of RA rows and Dec columns per radial shell.\<close>

type_synonym survey_mask = "bool list list list"

text \<open>
  The float whose truncation plus 1 is the shell number, \<open>DtoR*r/10.\<close>, and the two
  angles in degrees as \<open>not_in_mask\<close> computes them: \<open>ra\<close> is
  \<open>np.arctan(coords[1]/coords[0])*RtoD\<close>, plus 180 if
  \<open>coords[0] < 0 and coords[1] != 0\<close>, then plus 360 if negative; \<open>dec\<close> is
  \<open>np.arcsin(coords[2]/r)*RtoD\<close>.
\<close>

definition shell_float :: "fpu \<Rightarrow> npfloat \<Rightarrow> npfloat" where
  "shell_float fp r = fdiv fp (fmul fp (DtoR fp) r) (Fin 10)"

definition not_in_mask_arctan_arg :: "fpu \<Rightarrow> point \<Rightarrow> npfloat" where
  "not_in_mask_arctan_arg fp coords = (case coords of (x, y, z) \<Rightarrow> fdiv fp y x)"

definition not_in_mask_ra :: "fpu \<Rightarrow> point \<Rightarrow> npfloat" where
  "not_in_mask_ra fp coords =
     (case coords of (x, y, z) \<Rightarrow>
        let ra = fmul fp (np_arctan fp (not_in_mask_arctan_arg fp coords)) (RtoD fp);
            ra = (if fless x 0 \<and> fnonzero y then fadd fp ra (Fin 180) else ra)
        in if fless ra 0 then fadd fp ra (Fin 360) else ra)"

definition not_in_mask_dec :: "fpu \<Rightarrow> point \<Rightarrow> npfloat" where
  "not_in_mask_dec fp coords =
     (case coords of (x, y, z) \<Rightarrow>
        fmul fp (np_arcsin fp (fdiv fp z (norm64 fp coords))) (RtoD fp))"

text \<open>
  \<open>mask[n-1][int(n*ra)][int(n*dec)-n*dec_offset]\<close>, evaluated from left to right: each
  subscript and each \<open>int\<close> may raise.
\<close>

definition mask_lookup ::
  "fpu \<Rightarrow> survey_mask \<Rightarrow> int \<Rightarrow> npfloat \<Rightarrow> npfloat \<Rightarrow> py_error + bool" where
  "mask_lookup fp survey_mask n ra dec =
     bind_err (getitem survey_mask (n - 1)) (\<lambda>shell.
     bind_err (py_int (fmul fp (float_of_int fp n) ra)) (\<lambda>i.
     bind_err (getitem shell i) (\<lambda>row.
     bind_err (py_int (fmul fp (float_of_int fp n) dec)) (\<lambda>j.
     getitem row (j - n * dec_offset)))))"

definition not_in_mask ::
  "fpu \<Rightarrow> point list \<Rightarrow> survey_mask \<Rightarrow> real \<Rightarrow> real \<Rightarrow> py_error + bool" where
  "not_in_mask fp coordinates survey_mask_ra_dec rmin rmax =
     bind_err (getitem coordinates 0) (\<lambda>coords.
       let r = norm64 fp coords in
       if fless r rmin \<or> fgreater r rmax then Inr True
       else
         bind_err (py_int (shell_float fp r)) (\<lambda>k.
           let n = 1 + k;
               ra = not_in_mask_ra fp coords;
               dec = not_in_mask_dec fp coords
           in bind_err (mask_lookup fp survey_mask_ra_dec n ra dec) (\<lambda>flag. Inr (\<not> flag))))"

text \<open>
  \<open>in_mask\<close> on an array of rows (the conversions from a Table or a Row, which need
  table\_functions, are left out). The shell numbers, by \<open>astype(int)\<close>, and the angles
  are computed for the whole array, the mask is read row by row in a loop, and the radial
  limits are combined with the flags at the end.
\<close>

definition in_mask_arctan_arg :: "fpu \<Rightarrow> point list \<Rightarrow> npfloat list" where
  "in_mask_arctan_arg fp coordinates = map (\<lambda>(x, y, z). fdiv fp y x) coordinates"

definition in_mask_ra :: "fpu \<Rightarrow> point list \<Rightarrow> npfloat list" where
  "in_mask_ra fp coordinates =
     (let ra = map (\<lambda>v. fmul fp (np_arctan fp v) (RtoD fp)) (in_mask_arctan_arg fp coordinates);
          boolean_ra180 = map (\<lambda>(x, y, z). fless x 0 \<and> fnonzero y) coordinates;
          ra = map (\<lambda>(v, b). if b then fadd fp v (Fin 180) else v) (zip ra boolean_ra180)
      in map (\<lambda>v. if fless v 0 then fadd fp v (Fin 360) else v) ra)"

definition in_mask_dec :: "fpu \<Rightarrow> point list \<Rightarrow> npfloat list" where
  "in_mask_dec fp coordinates =
     map (\<lambda>p. case p of (x, y, z) \<Rightarrow>
            fmul fp (np_arcsin fp (fdiv fp z (norm64 fp p))) (RtoD fp)) coordinates"

fun in_mask_angood ::
  "fpu \<Rightarrow> survey_mask \<Rightarrow> (int \<times> npfloat \<times> npfloat) list \<Rightarrow> py_error + bool list" where
  "in_mask_angood fp survey_mask [] = Inr []"
| "in_mask_angood fp survey_mask ((n, ra, dec) # rest) =
     bind_err (mask_lookup fp survey_mask n ra dec) (\<lambda>flag.
     bind_err (in_mask_angood fp survey_mask rest) (\<lambda>flags. Inr (flag # flags)))"

definition in_mask ::
  "fpu \<Rightarrow> point list \<Rightarrow> survey_mask \<Rightarrow> real \<times> real \<Rightarrow> py_error + bool list" where
  "in_mask fp coordinates survey_mask r_limits =
     (let r = map (norm64 fp) coordinates;
          n = map (\<lambda>v. 1 + astype_int (shell_float fp v)) r;
          ra = in_mask_ra fp coordinates;
          dec = in_mask_dec fp coordinates
      in bind_err (in_mask_angood fp survey_mask (zip n (zip ra dec))) (\<lambda>angood.
           Inr (map (\<lambda>(a, v). a \<and> fle v (snd r_limits) \<and> fge v (fst r_limits)) (zip angood r))))"

subsection \<open>The mask cell of the specification\<close>

text \<open>The flag stored for bin \<open>(i, j)\<close> of shell \<open>n\<close> (shells are numbered from 1).\<close>

definition stored_flag :: "survey_mask \<Rightarrow> int \<Rightarrow> int \<Rightarrow> int \<Rightarrow> py_error + bool" where
  "stored_flag survey_mask n i j =
     bind_err (getitem survey_mask (n - 1)) (\<lambda>shell.
     bind_err (getitem shell i) (\<lambda>row. getitem row j))"

text \<open>
  The containment test in the words of the specification, for a point at distance \<open>r\<close>
  inside the limits with angles \<open>ra\<close> and \<open>dec\<close> in degrees: shell
  \<open>n = 1 + floor(constant * r)\<close>, bin \<open>(floor(n*ra), floor(n*dec) + 90*n)\<close>.
\<close>

definition spec_shell :: "real \<Rightarrow> int" where
  "spec_shell r = 1 + \<lfloor>pi / 180 / 10 * r\<rfloor>"

definition spec_contains :: "survey_mask \<Rightarrow> real \<Rightarrow> real \<Rightarrow> real \<Rightarrow> py_error + bool" where
  "spec_contains survey_mask r ra dec =
     (let n = spec_shell r
      in stored_flag survey_mask n \<lfloor>real_of_int n * ra\<rfloor> (\<lfloor>real_of_int n * dec\<rfloor> + 90 * n))"

text \<open>
  A mask of one shell with one RA row and 180 Dec columns, of which only column 90 (the
  bin of declinations from 0 to 1 degree) is observed.
\<close>

definition band_mask :: survey_mask where
  "band_mask = [[replicate 90 False @ [True] @ replicate 89 False]]"

subsection \<open>A floating point unit without rounding\<close>

text \<open>
  The unit that rounds no result within the range of float64 and overflows to an infinity
  beyond it, with the mathematical \<open>arctan\<close>, \<open>arcsin\<close>, norm and \<open>pi\<close>. The
  functions are evaluated with it at sample inputs.
\<close>

definition exact_norm :: "point \<Rightarrow> npfloat" where
  "exact_norm p =
     (case p of (x, y, z) \<Rightarrow>
        if x = NaN \<or> y = NaN \<or> z = NaN then NaN
        else if finf x \<or> finf y \<or> finf z then PInf
        else Fin (sqrt ((fval x)\<^sup>2 + (fval y)\<^sup>2 + (fval z)\<^sup>2)))"

definition exact_rnd :: "real \<Rightarrow> npfloat" where
  "exact_rnd v = (if 2 ^ 1024 \<le> v then PInf else if v \<le> - (2 ^ 1024) then NInf else Fin v)"

definition exact_fpu :: fpu where
  "exact_fpu =
     \<lparr>rnd = exact_rnd, atan64 = arctan, atan_inf = pi / 2, asin64 = arcsin,
      norm64 = exact_norm, pi64 = pi\<rparr>"

text \<open>
  What the proofs about angles in degrees use of a unit, each true of float64: a rounded
  result is not NaN and rounding is monotone; 0, 90, 180, 270 and -90 are floats;
  \<open>RtoD\<close> is finite and positive; \<open>arctan\<close> stays within
  \<open>atan_inf\<close> on either side and has the sign of its argument; and \<open>atan_inf\<close> times
  \<open>RtoD\<close> rounds to 90 (in float64, 1.5707963267948966 * 57.29577951308232 is 90.0).
\<close>

fun fle2 :: "npfloat \<Rightarrow> npfloat \<Rightarrow> bool" where
  "fle2 NaN b = False"
| "fle2 a NaN = False"
| "fle2 NInf b = True"
| "fle2 a PInf = True"
| "fle2 PInf b = False"
| "fle2 a NInf = False"
| "fle2 a b = (fval a \<le> fval b)"

definition degrees_unit :: "fpu \<Rightarrow> bool" where
  "degrees_unit fp =
     ((\<forall>u v. u \<le> v \<longrightarrow> fle2 (rnd fp u) (rnd fp v))
      \<and> (\<forall>d\<in>{0, 90, 180, 270, - 90}. rnd fp d = Fin d)
      \<and> ffinite (RtoD fp) \<and> 0 < fval (RtoD fp)
      \<and> 0 < atan_inf fp
      \<and> (\<forall>v. \<bar>atan64 fp v\<bar> \<le> atan_inf fp)
      \<and> (\<forall>v. v < 0 \<longrightarrow> atan64 fp v \<le> 0)
      \<and> (\<forall>v. 0 < v \<longrightarrow> 0 \<le> atan64 fp v)
      \<and> rnd fp (atan_inf fp * fval (RtoD fp)) = Fin 90
      \<and> rnd fp (- atan_inf fp * fval (RtoD fp)) = Fin (- 90))"

subsection \<open>\<open>in_survey\<close>\<close>

text \<open>
  A table is its column names and its rows; a row gives a value for each column name, so
  that the column \<open>coordinates[name]\<close> has one entry per row. The limits are one-row
  tables, read by column name (KeyError for a name they do not have).
\<close>

record table =
  colnames :: "string list"
  rows :: "(string \<Rightarrow> real) list"

definition column :: "table \<Rightarrow> string \<Rightarrow> real list" where
  "column t name = map (\<lambda>row. row name) (rows t)"

definition limit :: "(string \<rightharpoonup> real) \<Rightarrow> string \<Rightarrow> py_error + real" where
  "limit tbl name = (case tbl name of None \<Rightarrow> Inl KeyError | Some v \<Rightarrow> Inr v)"

fun in_survey_loop ::
  "table \<Rightarrow> (string \<rightharpoonup> real) \<Rightarrow> (string \<rightharpoonup> real) \<Rightarrow> string list \<Rightarrow> bool list
     \<Rightarrow> py_error + bool list" where
  "in_survey_loop coordinates min_limit max_limit [] good = Inr good"
| "in_survey_loop coordinates min_limit max_limit (name # names) good =
     bind_err (limit min_limit name) (\<lambda>lo.
       let check_min = map (\<lambda>v. v > lo) (column coordinates name) in
       bind_err (limit max_limit name) (\<lambda>hi.
         let check_max = map (\<lambda>v. v < hi) (column coordinates name) in
         in_survey_loop coordinates min_limit max_limit names
           (map (\<lambda>(g, a, b). g \<and> a \<and> b) (zip good (zip check_min check_max)))))"

definition in_survey ::
  "table \<Rightarrow> (string \<rightharpoonup> real) \<Rightarrow> (string \<rightharpoonup> real) \<Rightarrow> py_error + bool list" where
  "in_survey coordinates min_limit max_limit =
     in_survey_loop coordinates min_limit max_limit (colnames coordinates)
       (replicate (length (rows coordinates)) True)"

text \<open>
  A table of two rows, and limits, for trying \<open>in_survey\<close>: the first row is strictly
  inside the limits, the second has \<open>x\<close> equal to the minimum.
\<close>

definition sample_table :: table where
  "sample_table =
     \<lparr>colnames = [''x'', ''y''],
      rows = [(\<lambda>name. if name = ''x'' then 1 else 2), (\<lambda>name. if name = ''x'' then 0 else 2)]\<rparr>"

definition sample_min :: "string \<rightharpoonup> real" where
  "sample_min = [''x'' \<mapsto> 0, ''y'' \<mapsto> 0]"

definition sample_max :: "string \<rightharpoonup> real" where
  "sample_max = [''x'' \<mapsto> 5, ''y'' \<mapsto> 5]"

subsection \<open>\<open>build_mask\<close>\<close>

text \<open>\<open>xs[i] = v\<close>, with the index read as in \<open>getitem\<close>.\<close>

definition setitem :: "'a list \<Rightarrow> int \<Rightarrow> 'a \<Rightarrow> py_error + 'a list" where
  "setitem xs i v =
     (let len = int (length xs); j = (if i < 0 then len + i else i)
      in if 0 \<le> j \<and> j < len then Inr (xs[nat j := v]) else Inl IndexError)"

text \<open>
  A global name read inside a function of the module. The module binds the integer
  \<open>dec_offset\<close>; it binds neither \<open>maskra\<close> nor \<open>maskdec\<close>, which \<open>build_mask\<close>
  reads, so that reading them raises NameError.
\<close>

definition module_global :: "string \<Rightarrow> py_error + int" where
  "module_global name = (if name = ''dec_offset'' then Inr dec_offset else Inl NameError)"

text \<open>
  \<open>np.zeros((rows, cols), dtype=bool)\<close>; a negative dimension raises ValueError.
\<close>

definition zeros2 :: "int \<Rightarrow> int \<Rightarrow> py_error + bool list list" where
  "zeros2 nrow ncol =
     (if nrow < 0 \<or> ncol < 0 then Inl ValueError
      else Inr (replicate (nat nrow) (replicate (nat ncol) False)))"

text \<open>
  The inner loop over \<open>j\<close> for shell \<open>i\<close>: \<open>ras\<close> is what is left of
  \<open>file[i-1][0]\<close> from position \<open>j\<close> on, \<open>decs\<close> is \<open>file[i-1][1]\<close>. The
  statement \<open>mask[i-1][ra][dec - i*dec_offset] = True\<close> reads the row and writes into it.
\<close>

fun fill_shell :: "int \<Rightarrow> int list \<Rightarrow> int list \<Rightarrow> nat \<Rightarrow> bool list list \<Rightarrow> py_error + bool list list" where
  "fill_shell i [] decs j shell = Inr shell"
| "fill_shell i (ra # ras) decs j shell =
     bind_err (getitem shell ra) (\<lambda>row.
     bind_err (getitem decs (int j)) (\<lambda>dec.
     bind_err (setitem row (dec - i * dec_offset) True) (\<lambda>row'.
     bind_err (setitem shell ra row') (\<lambda>shell'.
     fill_shell i ras decs (Suc j) shell'))))"

text \<open>
  The outer loop, \<open>i\<close> counting the shells from 1: each round first evaluates
  \<open>np.zeros((i*maskra, i*maskdec), dtype=bool)\<close>, reading the two globals.
\<close>

fun build_mask_loop :: "int \<Rightarrow> (int list \<times> int list) list \<Rightarrow> py_error + survey_mask" where
  "build_mask_loop i [] = Inr []"
| "build_mask_loop i (entry # rest) =
     bind_err (module_global ''maskra'') (\<lambda>maskra.
     bind_err (module_global ''maskdec'') (\<lambda>maskdec.
     bind_err (zeros2 (i * maskra) (i * maskdec)) (\<lambda>shell.
     bind_err (fill_shell i (fst entry) (snd entry) 0 shell) (\<lambda>shell'.
     bind_err (build_mask_loop (i + 1) rest) (\<lambda>shells.
     Inr (shell' # shells))))))"

text \<open>
  The final \<open>np.array(mask)\<close>: a list of arrays of one shape becomes an array; for
  arrays of different shapes numpy (from 1.24) raises ValueError.
\<close>

definition shape2 :: "bool list list \<Rightarrow> nat \<times> nat" where
  "shape2 arr = (length arr, (case arr of [] \<Rightarrow> 0 | row # _ \<Rightarrow> length row))"

definition np_array :: "survey_mask \<Rightarrow> py_error + survey_mask" where
  "np_array shells =
     (case shells of
        [] \<Rightarrow> Inr []
      | first # _ \<Rightarrow>
          if list_all (\<lambda>arr. shape2 arr = shape2 first) shells then Inr shells
          else Inl ValueError)"

definition build_mask :: "(int list \<times> int list) list \<Rightarrow> py_error + survey_mask" where
  "build_mask file = bind_err (build_mask_loop 1 file) np_array"

subsection \<open>\<open>mesh_galaxies_dict\<close> and \<open>mesh_galaxies\<close>\<close>

type_synonym cell = "int \<times> int \<times> int"

text \<open>\<open>((galaxy_coords - coord_min)/grid_side_length).astype(int)\<close>, row by row.\<close>

definition mesh_indices_array :: "fpu \<Rightarrow> point list \<Rightarrow> point \<Rightarrow> npfloat \<Rightarrow> cell list" where
  "mesh_indices_array fp galaxy_coords coord_min grid_side_length =
     map (\<lambda>(x, y, z). case coord_min of (mx, my, mz) \<Rightarrow>
            (astype_int (fdiv fp (fsub fp x mx) grid_side_length),
             astype_int (fdiv fp (fsub fp y my) grid_side_length),
             astype_int (fdiv fp (fsub fp z mz) grid_side_length)))
         galaxy_coords"

text \<open>The loop of \<open>mesh_galaxies_dict\<close>: \<open>cell_ID_dict[bin_ID] = 1\<close> for each row.\<close>

fun cell_ID_loop :: "cell list \<Rightarrow> (cell \<rightharpoonup> int) \<Rightarrow> (cell \<rightharpoonup> int)" where
  "cell_ID_loop [] cell_ID_dict = cell_ID_dict"
| "cell_ID_loop (bin_ID # rest) cell_ID_dict = cell_ID_loop rest (cell_ID_dict(bin_ID \<mapsto> 1))"

definition mesh_galaxies_dict :: "fpu \<Rightarrow> point list \<Rightarrow> point \<Rightarrow> npfloat \<Rightarrow> (cell \<rightharpoonup> int)" where
  "mesh_galaxies_dict fp galaxy_coords coord_min grid_side_length =
     cell_ID_loop (mesh_indices_array fp galaxy_coords coord_min grid_side_length) Map.empty"

text \<open>
  Modelled from the spec: \<open>subtract_row\<close> is in table\_functions, which is not among the
  sources. By its name, its use and section 4.1 (\<open>position - coord_min\<close>) it subtracts
  the one row of minima from every row of the table.
\<close>

definition subtract_row :: "fpu \<Rightarrow> point list \<Rightarrow> point \<Rightarrow> point list" where
  "subtract_row fp tbl row =
     map (\<lambda>(x, y, z). case row of (mx, my, mz) \<Rightarrow> (fsub fp x mx, fsub fp y my, fsub fp z mz)) tbl"

text \<open>
  Modelled from the spec: \<open>table_divide\<close> is in table\_functions, which is not among the
  sources. By its name, its use and section 4.1 (\<open>/ cell_edge_length\<close>) it divides every
  entry of the table by the number.
\<close>

definition table_divide :: "fpu \<Rightarrow> point list \<Rightarrow> npfloat \<Rightarrow> point list" where
  "table_divide fp tbl d = map (\<lambda>(x, y, z). (fdiv fp x d, fdiv fp y d, fdiv fp z d)) tbl"

text \<open>
  Modelled from the spec: \<open>table_dtype_cast\<close> is in table\_functions, which is not among
  the sources. By its name and its use (the line it replaced in \<open>mesh_galaxies_dict\<close> is
  the array expression with \<open>astype(int)\<close>) it casts every column to the given type, here
  \<open>int\<close>; section 4.1 writes the result as a floor.
\<close>

definition table_dtype_cast_int :: "point list \<Rightarrow> cell list" where
  "table_dtype_cast_int tbl = map (\<lambda>(x, y, z). (astype_int x, astype_int y, astype_int z)) tbl"

text \<open>\<open>np.zeros(N_boxes, dtype=int)\<close> for a shape of three extents.\<close>

definition zeros3 :: "int \<times> int \<times> int \<Rightarrow> py_error + int list list list" where
  "zeros3 N_boxes =
     (case N_boxes of (nx, ny, nz) \<Rightarrow>
        if nx < 0 \<or> ny < 0 \<or> nz < 0 then Inl ValueError
        else Inr (replicate (nat nx) (replicate (nat ny) (replicate (nat nz) 0))))"

text \<open>\<open>ngal[i, j, k] += 1\<close>: each index is read as in \<open>getitem\<close>.\<close>

definition incr3 :: "int list list list \<Rightarrow> cell \<Rightarrow> py_error + int list list list" where
  "incr3 ngal c =
     (case c of (i, j, k) \<Rightarrow>
        bind_err (getitem ngal i) (\<lambda>plane.
        bind_err (getitem plane j) (\<lambda>row.
        bind_err (getitem row k) (\<lambda>v.
        bind_err (setitem row k (v + 1)) (\<lambda>row'.
        bind_err (setitem plane j row') (\<lambda>plane'.
        setitem ngal i plane'))))))"

fun mesh_galaxies_loop :: "cell list \<Rightarrow> int list list list \<Rightarrow> py_error + int list list list" where
  "mesh_galaxies_loop [] ngal = Inr ngal"
| "mesh_galaxies_loop (c # rest) ngal = bind_err (incr3 ngal c) (mesh_galaxies_loop rest)"

text \<open>
  \<open>mesh_galaxies\<close> returns \<open>ngal\<close> only: the lines that fill \<open>chainlist\<close> and
  \<open>linklist\<close>, and the return of them, are commented out in the source.
\<close>

definition mesh_galaxies ::
  "fpu \<Rightarrow> point list \<Rightarrow> point \<Rightarrow> npfloat \<Rightarrow> int \<times> int \<times> int \<Rightarrow> py_error + int list list list" where
  "mesh_galaxies fp galaxy_coords coord_min grid_side_length N_boxes =
     bind_err (zeros3 N_boxes) (\<lambda>ngal.
       let mesh_indices =
             table_dtype_cast_int
               (table_divide fp (subtract_row fp galaxy_coords coord_min) grid_side_length)
       in mesh_galaxies_loop mesh_indices ngal)"

text \<open>
  The grid cell of a galaxy in the words of the specification:
  \<open>floor((position - coord_min) / cell_edge_length)\<close> on each axis, of the numbers the
  floats stand for.
\<close>

definition spec_grid_cell :: "point \<Rightarrow> npfloat \<Rightarrow> point \<Rightarrow> cell" where
  "spec_grid_cell coord_min cell_edge_length position =
     (case position of (x, y, z) \<Rightarrow> case coord_min of (mx, my, mz) \<Rightarrow>
        (\<lfloor>(fval x - fval mx) / fval cell_edge_length\<rfloor>,
         \<lfloor>(fval y - fval my) / fval cell_edge_length\<rfloor>,
         \<lfloor>(fval z - fval mz) / fval cell_edge_length\<rfloor>))"

text \<open>
  The same floor taken of the float quotient that the code computes, \<open>quotient\<close> being
  \<open>(v - lo) / cell_edge_length\<close> on one axis.
\<close>

definition quotient :: "fpu \<Rightarrow> npfloat \<Rightarrow> npfloat \<Rightarrow> npfloat \<Rightarrow> npfloat" where
  "quotient fp lo d v = fdiv fp (fsub fp v lo) d"

definition float_grid_cell :: "fpu \<Rightarrow> point \<Rightarrow> npfloat \<Rightarrow> point \<Rightarrow> cell" where
  "float_grid_cell fp coord_min cell_edge_length position =
     (case position of (x, y, z) \<Rightarrow> case coord_min of (mx, my, mz) \<Rightarrow>
        (\<lfloor>fval (quotient fp mx cell_edge_length x)\<rfloor>,
         \<lfloor>fval (quotient fp my cell_edge_length y)\<rfloor>,
         \<lfloor>fval (quotient fp mz cell_edge_length z)\<rfloor>))"

text \<open>A float quotient is finite and below \<open>2^63\<close>, the range of \<open>astype(int)\<close>.\<close>

definition castable :: "npfloat \<Rightarrow> bool" where
  "castable q = (ffinite q \<and> fval q < 2 ^ 63)"

definition quotients_castable :: "fpu \<Rightarrow> point \<Rightarrow> npfloat \<Rightarrow> point \<Rightarrow> bool" where
  "quotients_castable fp coord_min cell_edge_length position =
     (case position of (x, y, z) \<Rightarrow> case coord_min of (mx, my, mz) \<Rightarrow>
        castable (quotient fp mx cell_edge_length x)
        \<and> castable (quotient fp my cell_edge_length y)
        \<and> castable (quotient fp mz cell_edge_length z))"

text \<open>Finite coordinates, componentwise at least the minima.\<close>

definition coord_ge :: "npfloat \<Rightarrow> npfloat \<Rightarrow> bool" where
  "coord_ge v lo = (ffinite v \<and> ffinite lo \<and> fval lo \<le> fval v)"

definition coords_ge :: "point \<Rightarrow> point \<Rightarrow> bool" where
  "coords_ge position coord_min =
     (case position of (x, y, z) \<Rightarrow> case coord_min of (mx, my, mz) \<Rightarrow>
        coord_ge x mx \<and> coord_ge y my \<and> coord_ge z mz)"

definition cell_in_grid :: "int \<times> int \<times> int \<Rightarrow> cell \<Rightarrow> bool" where
  "cell_in_grid N_boxes c =
     (case c of (i, j, k) \<Rightarrow> case N_boxes of (nx, ny, nz) \<Rightarrow>
        0 \<le> i \<and> i < nx \<and> 0 \<le> j \<and> j < ny \<and> 0 \<le> k \<and> k < nz)"

text \<open>An array has the shape \<open>(nx, ny, nz)\<close>.\<close>

definition has_shape3 :: "'a list list list \<Rightarrow> nat \<Rightarrow> nat \<Rightarrow> nat \<Rightarrow> bool" where
  "has_shape3 a nx ny nz =
     (length a = nx \<and> list_all (\<lambda>plane. length plane = ny \<and> list_all (\<lambda>row. length row = nz) plane) a)"

text \<open>
  What the proof about grid cells uses of a unit, true of float64: a positive exact result
  is rounded to a float that is not negative and not NaN.
\<close>

definition sign_unit :: "fpu \<Rightarrow> bool" where
  "sign_unit fp = (\<forall>v. 0 < v \<longrightarrow> \<not> fneg (rnd fp v) \<and> rnd fp v \<noteq> NaN)"

section \<open>Properties\<close>

subsection \<open>Errors and the floating point unit without rounding\<close>

lemma bind_err_Inr [simp]: "bind_err (Inr v) f = f v"
  by (simp add: bind_err_def)

lemma bind_err_Inl [simp]: "bind_err (Inl e) f = Inl e"
  by (simp add: bind_err_def)

lemma getitem_single [simp]: "getitem [p] 0 = Inr p"
  by (simp add: getitem_def)

lemma trunc_nonneg: "0 \<le> v \<Longrightarrow> trunc v = \<lfloor>v\<rfloor>"
  by (simp add: trunc_def)

lemma exact_rnd_small:
  assumes "\<bar>v\<bar> \<le> 2 ^ 64"
  shows "exact_rnd v = Fin v"
proof -
  have "(2::real) ^ 64 < 2 ^ 1024" by simp
  then have "v < 2 ^ 1024" "- (2 ^ 1024) < v" using assms by linarith+
  then show ?thesis by (simp add: exact_rnd_def)
qed

lemma exact_fpu_simps [simp]:
  "rnd exact_fpu = exact_rnd" "atan64 exact_fpu = arctan" "atan_inf exact_fpu = pi / 2"
  "asin64 exact_fpu = arcsin" "norm64 exact_fpu = exact_norm" "pi64 exact_fpu = pi"
  by (simp_all add: exact_fpu_def)

lemma exact_RtoD: "RtoD exact_fpu = Fin (180 / pi)"
proof -
  have "180 / pi \<le> 90" using pi_ge_two by (simp add: field_simps)
  then have "\<bar>180 / pi\<bar> \<le> 2 ^ 64" by simp
  then show ?thesis by (simp add: RtoD_def fdiv_def exact_rnd_small)
qed

lemma exact_DtoR: "DtoR exact_fpu = Fin (pi / 180)"
proof -
  have "pi / 180 \<le> 1" using pi_less_4 by simp
  then have "\<bar>pi / 180\<bar> \<le> 2 ^ 64" by simp
  then show ?thesis by (simp add: DtoR_def fdiv_def exact_rnd_small)
qed

lemma exact_shell_float:
  assumes "0 < r" "r \<le> 10000"
  shows "shell_float exact_fpu (Fin r) = Fin (pi / 180 * r / 10)"
proof -
  have a: "0 < pi / 180 * r" using assms by simp
  have "pi / 180 * r \<le> 1 * 10000"
    using assms pi_less_4 by (intro mult_mono) simp_all
  then have b: "\<bar>pi / 180 * r\<bar> \<le> 2 ^ 64" "\<bar>pi / 180 * r / 10\<bar> \<le> 2 ^ 64"
    using a by simp_all
  show ?thesis
    using a assms b
    by (simp add: shell_float_def exact_DtoR fmul_def fdiv_def exact_rnd_small)
qed

subsection \<open>The two containment tests on one row\<close>

lemma in_mask_ra_single: "in_mask_ra fp [p] = [not_in_mask_ra fp p]"
  by (cases p)
    (simp add: in_mask_ra_def in_mask_arctan_arg_def not_in_mask_ra_def
      not_in_mask_arctan_arg_def Let_def)

lemma in_mask_dec_single: "in_mask_dec fp [p] = [not_in_mask_dec fp p]"
  by (cases p) (simp add: in_mask_dec_def not_in_mask_dec_def)

lemma in_mask_single:
  "in_mask fp [p] m (rmin, rmax) =
     bind_err (mask_lookup fp m (1 + astype_int (shell_float fp (norm64 fp p)))
                 (not_in_mask_ra fp p) (not_in_mask_dec fp p))
       (\<lambda>flag. Inr [flag \<and> fle (norm64 fp p) rmax \<and> fge (norm64 fp p) rmin])"
  by (simp add: in_mask_def in_mask_ra_single in_mask_dec_single Let_def bind_err_def
      split: sum.splits)

lemma not_in_mask_single:
  "not_in_mask fp [p] m rmin rmax =
     (if fless (norm64 fp p) rmin \<or> fgreater (norm64 fp p) rmax then Inr True
      else bind_err (py_int (shell_float fp (norm64 fp p))) (\<lambda>k.
             bind_err (mask_lookup fp m (1 + k) (not_in_mask_ra fp p) (not_in_mask_dec fp p))
               (\<lambda>flag. Inr (\<not> flag))))"
  by (simp add: not_in_mask_def Let_def)

lemma shell_float_NaN: "shell_float fp NaN = NaN"
  by (simp add: shell_float_def fmul_def fdiv_def)

lemma py_int_castable:
  assumes "py_int q = Inr k" "- (2 ^ 63) \<le> k" "k < 2 ^ 63"
  shows "astype_int q = k"
  using assms by (cases q) auto

lemma getitem_bounds:
  assumes "getitem xs i = Inr v"
  shows "- int (length xs) \<le> i \<and> i < int (length xs)"
  using assms by (auto simp: getitem_def Let_def split: if_splits)

lemma limits_not_NaN:
  "r \<noteq> NaN \<Longrightarrow> (\<not> (fless r rmin \<or> fgreater r rmax)) = (fge r rmin \<and> fle r rmax)"
  by (cases r) auto

subsection \<open>Sample values\<close>

lemma shell_float_900: "shell_float exact_fpu (Fin 900) = Fin (pi / 2)"
  using exact_shell_float [of 900] by simp

lemma trunc_half_pi: "trunc (pi / 2) = 1"
proof -
  have "\<lfloor>pi / 2\<rfloor> = 1"
    using pi_ge_two pi_less_4 by (simp add: floor_eq_iff)
  then show ?thesis by (simp add: trunc_def)
qed

lemma exact_norm_x_axis: "exact_norm (Fin x, Fin 0, Fin 0) = Fin \<bar>x\<bar>"
  by (simp add: exact_norm_def)

subsection \<open>Points outside the radial limits\<close>

text \<open>
  Claim C5 at a failing input. The point \<open>(900, 0, 0)\<close> lies outside the limits
  \<open>[0, 500]\<close> and in shell 2; the mask has one shell. \<open>not_in_mask\<close> returns True
  at once, while \<open>in_mask\<close> reads the mask before it looks at the limits and raises
  IndexError.
\<close>

theorem in_mask_reads_mask_outside_limits:
  "in_mask exact_fpu [(Fin 900, Fin 0, Fin 0)] [[[True]]] (0, 500) = Inl IndexError
     \<and> not_in_mask exact_fpu [(Fin 900, Fin 0, Fin 0)] [[[True]]] 0 500 = Inr True"
  by (simp add: in_mask_single not_in_mask_single exact_norm_x_axis shell_float_900
      trunc_half_pi mask_lookup_def getitem_def)

subsection \<open>Mask cells and a sample point below the equator\<close>

lemma py_int_finite: "ffinite q \<Longrightarrow> py_int q = Inr (trunc (fval q))"
  by (cases q) (simp_all add: trunc_def)

lemma astype_int_finite:
  "ffinite q \<Longrightarrow> - (2 ^ 63) \<le> trunc (fval q) \<Longrightarrow> trunc (fval q) < 2 ^ 63
     \<Longrightarrow> astype_int q = trunc (fval q)"
  by (cases q) (simp_all add: trunc_def)

lemma mask_lookup_finite:
  assumes "ffinite (fmul fp (float_of_int fp n) ra)" "ffinite (fmul fp (float_of_int fp n) dec)"
  shows "mask_lookup fp m n ra dec =
     stored_flag m n (trunc (fval (fmul fp (float_of_int fp n) ra)))
       (trunc (fval (fmul fp (float_of_int fp n) dec)) + 90 * n)"
  using assms
  by (simp add: mask_lookup_def stored_flag_def py_int_finite dec_offset_def bind_err_def
      mult.commute [of n 90] split: sum.splits)

lemma arctan_le_arg:
  assumes "0 \<le> x"
  shows "arctan x \<le> x"
proof -
  have "(\<lambda>t. t - arctan t) 0 \<le> (\<lambda>t. t - arctan t) x"
  proof (rule DERIV_nonneg_imp_nondecreasing [OF assms])
    fix t :: real
    have "0 < 1 + t\<^sup>2" by (simp add: add_pos_nonneg)
    moreover have "1 \<le> 1 + t\<^sup>2" by simp
    ultimately have "inverse (1 + t\<^sup>2) \<le> 1" by (simp add: inverse_le_1_iff)
    moreover have "((\<lambda>t. t - arctan t) has_real_derivative 1 - inverse (1 + t\<^sup>2)) (at t)"
      by (auto intro!: derivative_eq_intros)
    ultimately show "\<exists>y. ((\<lambda>t. t - arctan t) has_real_derivative y) (at t) \<and> 0 \<le> y"
      by (intro exI [of _ "1 - inverse (1 + t\<^sup>2)"]) simp
  qed
  then show ?thesis by simp
qed

lemma sqrt_10001_bounds: "100 < sqrt 10001 \<and> sqrt 10001 < 101"
proof -
  have "sqrt (100\<^sup>2) < sqrt 10001" by (simp only: real_sqrt_less_iff) simp
  moreover have "sqrt 10001 < sqrt (101\<^sup>2)" by (simp only: real_sqrt_less_iff) simp
  ultimately show ?thesis by simp
qed

lemma norm_sample: "exact_norm (Fin 100, Fin 0, Fin (- 1)) = Fin (sqrt 10001)"
  by (simp add: exact_norm_def)

lemma shell_sample:
  "shell_float exact_fpu (Fin (sqrt 10001)) = Fin (pi / 180 * sqrt 10001 / 10)"
  "\<lfloor>pi / 180 * sqrt 10001 / 10\<rfloor> = 0"
proof -
  show "shell_float exact_fpu (Fin (sqrt 10001)) = Fin (pi / 180 * sqrt 10001 / 10)"
    using sqrt_10001_bounds by (intro exact_shell_float) simp_all
  have "0 \<le> pi * sqrt 10001" using sqrt_10001_bounds by simp
  moreover have "pi * sqrt 10001 < 4 * 101"
    using sqrt_10001_bounds pi_less_4 pi_gt_zero
    by (intro mult_strict_mono) simp_all
  ultimately show "\<lfloor>pi / 180 * sqrt 10001 / 10\<rfloor> = 0"
    by (simp add: floor_eq_iff)
qed

lemma arcsin_sample: "arcsin (- 1 / sqrt 10001) = - arctan (1 / 100)"
proof -
  have "sqrt (1 + (1 / 100)\<^sup>2) = sqrt 10001 / 100"
  proof -
    have "1 + (1 / 100 :: real)\<^sup>2 = 10001 / 100\<^sup>2" by (simp add: power2_eq_square)
    then have "sqrt (1 + (1 / 100)\<^sup>2) = sqrt (10001 / 100\<^sup>2)" by simp
    also have "\<dots> = sqrt 10001 / 100" by (simp only: real_sqrt_divide) simp
    finally show ?thesis .
  qed
  then have "sin (arctan (1 / 100)) = 1 / sqrt 10001"
    by (simp add: sin_arctan)
  moreover have "- (pi / 2) \<le> arctan (1 / 100)" "arctan (1 / 100) \<le> pi / 2"
    using arctan_bounded [of "1 / 100"] by simp_all
  ultimately have "arcsin (1 / sqrt 10001) = arctan (1 / 100)"
    using arcsin_sin [of "arctan (1 / 100)"] by simp
  moreover have "- 1 \<le> 1 / sqrt 10001" "1 / sqrt 10001 \<le> 1"
    using sqrt_10001_bounds by (simp_all add: order_trans [of "- 1" 0])
  then have "arcsin (- (1 / sqrt 10001)) = - arcsin (1 / sqrt 10001)"
    by (rule arcsin_minus)
  ultimately show ?thesis by simp
qed

lemma exact_RtoD_value:
  "RtoD exact_fpu = Fin (fval (RtoD exact_fpu))"
  "0 < fval (RtoD exact_fpu)" "fval (RtoD exact_fpu) \<le> 90"
proof -
  show "RtoD exact_fpu = Fin (fval (RtoD exact_fpu))" by (simp add: exact_RtoD)
  show "0 < fval (RtoD exact_fpu)" by (simp add: exact_RtoD)
  show "fval (RtoD exact_fpu) \<le> 90"
    using pi_ge_two by (simp add: exact_RtoD field_simps)
qed

lemma dec_sample_bounds:
  "- 1 < arcsin (- 1 / sqrt 10001) * fval (RtoD exact_fpu)
     \<and> arcsin (- 1 / sqrt 10001) * fval (RtoD exact_fpu) < 0"
proof -
  define R where "R = fval (RtoD exact_fpu)"
  have R: "0 < R" "R \<le> 90" using exact_RtoD_value by (simp_all add: R_def)
  have pos: "0 < arctan (1 / 100 :: real)" by simp
  have "arctan (1 / 100) \<le> (1 / 100 :: real)" by (rule arctan_le_arg) simp
  then have "arctan (1 / 100) * R \<le> (1 / 100) * 90"
    using pos R by (intro mult_mono) simp_all
  moreover have "0 < arctan (1 / 100) * R" using pos R by simp
  moreover have "arcsin (- 1 / sqrt 10001) * R = - (arctan (1 / 100) * R)"
    by (simp only: arcsin_sample mult_minus_left)
  ultimately have "- 1 < arcsin (- 1 / sqrt 10001) * R \<and> arcsin (- 1 / sqrt 10001) * R < 0"
    by linarith
  then show ?thesis by (simp only: R_def)
qed

lemma dec_sample:
  "not_in_mask_dec exact_fpu (Fin 100, Fin 0, Fin (- 1))
     = Fin (arcsin (- 1 / sqrt 10001) * fval (RtoD exact_fpu))"
proof -
  define R where "R = fval (RtoD exact_fpu)"
  define q :: real where "q = - 1 / sqrt 10001"
  define a where "a = arcsin q"
  have RD: "RtoD exact_fpu = Fin R" using exact_RtoD_value(1) by (simp only: R_def)
  have R: "0 < R" using exact_RtoD_value(2) by (simp only: R_def)
  have q: "- 1 \<le> q" "q \<le> 1" "q \<noteq> 0" "\<bar>q\<bar> \<le> 2 ^ 64"
    using sqrt_10001_bounds by (simp_all add: q_def field_simps)
  have d: "fdiv exact_fpu (Fin (- 1)) (Fin (sqrt 10001)) = Fin q"
    using sqrt_10001_bounds q(4) by (simp add: fdiv_def exact_rnd_small q_def)
  have b: "- 1 < a * R" "a * R < 0"
    using dec_sample_bounds by (simp_all only: a_def q_def R_def)
  then have a0: "a \<noteq> 0" by auto
  have b2: "\<bar>a * R\<bar> \<le> 2 ^ 64" using b by simp
  have b3: "a * R \<noteq> 0" using b(2) by linarith
  have "np_arcsin exact_fpu (Fin q) = Fin a"
    using q by (simp add: a_def)
  moreover have "fmul exact_fpu (Fin a) (Fin R) = Fin (a * R)"
    using a0 R b2 b3 by (simp add: fmul_def exact_rnd_small)
  ultimately have "not_in_mask_dec exact_fpu (Fin 100, Fin 0, Fin (- 1)) = Fin (a * R)"
    by (simp add: not_in_mask_dec_def norm_sample d RD)
  then show ?thesis by (simp only: a_def q_def R_def)
qed

lemma ra_sample: "not_in_mask_ra exact_fpu (Fin 100, Fin 0, z) = Fin 0"
  by (simp add: not_in_mask_ra_def not_in_mask_arctan_arg_def fdiv_def fmul_def
      signed_zero_def exact_RtoD Let_def)

lemma band_mask_90: "stored_flag band_mask 1 0 90 = Inr True"
  by (simp add: stored_flag_def band_mask_def getitem_def nth_append)

lemma band_mask_89: "stored_flag band_mask 1 0 89 = Inr False"
  by (simp add: stored_flag_def band_mask_def getitem_def nth_append)

lemma sample_lookup:
  "mask_lookup exact_fpu band_mask 1 (Fin 0)
     (Fin (arcsin (- 1 / sqrt 10001) * fval (RtoD exact_fpu))) = Inr True"
proof -
  define d where "d = arcsin (- 1 / sqrt 10001) * fval (RtoD exact_fpu)"
  have d: "- 1 < d" "d < 0" using dec_sample_bounds by (simp_all only: d_def)
  have c: "\<lceil>d\<rceil> = 0" using d by (simp add: ceiling_eq_iff)
  have m: "fmul exact_fpu (float_of_int exact_fpu 1) (Fin d) = Fin d"
    using d by (simp add: fmul_def float_of_int_def exact_rnd_small)
  have z: "fmul exact_fpu (float_of_int exact_fpu 1) (Fin 0) = Fin 0"
    by (simp add: fmul_def float_of_int_def signed_zero_def)
  have "mask_lookup exact_fpu band_mask 1 (Fin 0) (Fin d) = stored_flag band_mask 1 0 90"
    using d c by (simp add: mask_lookup_finite m z trunc_def)
  then show ?thesis by (simp only: d_def band_mask_90)
qed

subsection \<open>The mask cell of a point\<close>

text \<open>
  Claim C2, as stated, fails: the Dec bin is not \<open>floor(n*dec) + 90*n\<close>. The point
  \<open>(100, 0, -1)\<close> lies in shell 1 with \<open>ra = 0\<close> and a declination between -1 and 0
  degrees. Both functions read bin \<open>(0, 90)\<close>, which \<open>band_mask\<close> has observed, and
  answer that the point is in the mask; the bin of the claim, \<open>(0, 89)\<close>, is not
  observed.
\<close>

theorem mask_cell_not_floor:
  "not_in_mask_ra exact_fpu (Fin 100, Fin 0, Fin (- 1)) = Fin 0
     \<and> not_in_mask_dec exact_fpu (Fin 100, Fin 0, Fin (- 1))
         = Fin (arcsin (- 1 / sqrt 10001) * fval (RtoD exact_fpu))
     \<and> not_in_mask exact_fpu [(Fin 100, Fin 0, Fin (- 1))] band_mask 0 1000 = Inr False
     \<and> in_mask exact_fpu [(Fin 100, Fin 0, Fin (- 1))] band_mask (0, 1000) = Inr [True]
     \<and> spec_contains band_mask (sqrt 10001) 0
          (arcsin (- 1 / sqrt 10001) * fval (RtoD exact_fpu)) = Inr False"
proof -
  define d where "d = arcsin (- 1 / sqrt 10001) * fval (RtoD exact_fpu)"
  have d: "- 1 < d" "d < 0" using dec_sample_bounds by (simp_all only: d_def)
  have f: "\<lfloor>d\<rfloor> = - 1" using d by (simp add: floor_eq_iff)
  have dec: "not_in_mask_dec exact_fpu (Fin 100, Fin 0, Fin (- 1)) = Fin d"
    by (simp only: d_def dec_sample)
  have look: "mask_lookup exact_fpu band_mask 1 (Fin 0) (Fin d) = Inr True"
    by (simp only: d_def sample_lookup)
  have r: "100 < sqrt 10001" "sqrt 10001 < 1000" using sqrt_10001_bounds by simp_all
  have tr: "trunc (pi / 180 * sqrt 10001 / 10) = 0"
    using shell_sample(2) r by (simp add: trunc_def)
  have "not_in_mask exact_fpu [(Fin 100, Fin 0, Fin (- 1))] band_mask 0 1000 = Inr False"
    using r tr look
    by (simp add: not_in_mask_single norm_sample shell_sample(1) ra_sample dec)
  moreover have "in_mask exact_fpu [(Fin 100, Fin 0, Fin (- 1))] band_mask (0, 1000) = Inr [True]"
    using r tr look
    by (simp add: in_mask_single norm_sample shell_sample(1) ra_sample dec)
  moreover have "spec_contains band_mask (sqrt 10001) 0 d = Inr False"
    using f shell_sample(2)
    by (simp add: spec_contains_def spec_shell_def band_mask_89 mult.commute)
  ultimately show ?thesis by (simp add: ra_sample dec d_def)
qed

text \<open>
  Claim C2, amended. Let \<open>r\<close> be the norm of the point as computed, inside the radial
  limits, and let the float \<open>DtoR*r/10.\<close> be finite. The shell is \<open>n\<close>, 1 plus that
  float truncated towards zero (its floor when it is not negative, its ceiling when it is
  negative). With the float products \<open>n*ra\<close> and \<open>n*dec\<close> finite, the RA bin is
  \<open>n*ra\<close> truncated towards zero and the Dec bin is \<open>n*dec\<close> truncated towards zero
  plus \<open>90*n\<close>; \<open>not_in_mask\<close> returns the negation of the flag stored there, and
  \<open>in_mask\<close>, for a shell number within int64, the flag itself (or the error of a
  subscript out of range). This holds for every floating point unit.
\<close>

theorem mask_cell_truncated:
  assumes "r = norm64 fp (x, y, z)"
    and "\<not> (fless r rmin \<or> fgreater r rmax)"
    and "ffinite (shell_float fp r)"
    and "n = 1 + (if 0 \<le> fval (shell_float fp r) then \<lfloor>fval (shell_float fp r)\<rfloor>
                 else \<lceil>fval (shell_float fp r)\<rceil>)"
    and "a = fmul fp (float_of_int fp n) (not_in_mask_ra fp (x, y, z))"
    and "d = fmul fp (float_of_int fp n) (not_in_mask_dec fp (x, y, z))"
    and "ffinite a" and "ffinite d"
    and "i = (if 0 \<le> fval a then \<lfloor>fval a\<rfloor> else \<lceil>fval a\<rceil>)"
    and "j = (if 0 \<le> fval d then \<lfloor>fval d\<rfloor> else \<lceil>fval d\<rceil>) + 90 * n"
  shows "not_in_mask fp [(x, y, z)] m rmin rmax
           = bind_err (stored_flag m n i j) (\<lambda>flag. Inr (\<not> flag))
       \<and> (- (2 ^ 63) < n \<and> n \<le> 2 ^ 63
            \<longrightarrow> in_mask fp [(x, y, z)] m (rmin, rmax)
                  = bind_err (stored_flag m n i j) (\<lambda>flag. Inr [flag]))"
proof -
  let ?p = "(x, y, z)"
  let ?sf = "shell_float fp r"
  have n: "n = 1 + trunc (fval ?sf)" using assms(4) by (simp add: trunc_def)
  have ij: "i = trunc (fval a)" "j = trunc (fval d) + 90 * n"
    using assms(9,10) by (simp_all add: trunc_def)
  have look: "mask_lookup fp m n (not_in_mask_ra fp ?p) (not_in_mask_dec fp ?p)
      = stored_flag m n i j"
    using mask_lookup_finite [of fp n "not_in_mask_ra fp ?p" "not_in_mask_dec fp ?p" m]
      assms(5-8) ij by simp
  have k: "py_int ?sf = Inr (trunc (fval ?sf))" by (rule py_int_finite [OF assms(3)])
  have "r \<noteq> NaN" using assms(3) by (auto simp: shell_float_NaN)
  then have lim: "fge r rmin \<and> fle r rmax"
    using assms(2) limits_not_NaN [of r rmin rmax] by simp
  have one: "not_in_mask fp [?p] m rmin rmax
           = bind_err (stored_flag m n i j) (\<lambda>flag. Inr (\<not> flag))"
    using assms(1,2) k n look by (simp add: not_in_mask_single)
  have two: "in_mask fp [?p] m (rmin, rmax)
           = bind_err (stored_flag m n i j) (\<lambda>flag. Inr [flag])"
    if "- (2 ^ 63) < n \<and> n \<le> 2 ^ 63"
  proof -
    have "astype_int ?sf = trunc (fval ?sf)"
      using that n by (intro astype_int_finite [OF assms(3)]) simp_all
    then show ?thesis
      using assms(1) n look lim by (simp add: in_mask_single)
  qed
  show ?thesis using one two by blast
qed

theorem mask_cell_truncated_witness:
  "not_in_mask exact_fpu [(Fin 100, Fin 0, Fin (- 1))] band_mask 0 1000
     = bind_err (stored_flag band_mask 1 0 90) (\<lambda>flag. Inr (\<not> flag))
   \<and> in_mask exact_fpu [(Fin 100, Fin 0, Fin (- 1))] band_mask (0, 1000)
     = bind_err (stored_flag band_mask 1 0 90) (\<lambda>flag. Inr [flag])"
proof -
  define dv where "dv = arcsin (- 1 / sqrt 10001) * fval (RtoD exact_fpu)"
  have dv: "- 1 < dv" "dv < 0" using dec_sample_bounds by (simp_all only: dv_def)
  let ?p = "(Fin 100, Fin 0, Fin (- 1)) :: point"
  let ?r = "Fin (sqrt 10001)"
  have h1: "?r = norm64 exact_fpu (Fin 100, Fin 0, Fin (- 1))" by (simp add: norm_sample)
  have h2: "\<not> (fless ?r 0 \<or> fgreater ?r 1000)" using sqrt_10001_bounds by simp
  have h3: "ffinite (shell_float exact_fpu ?r)" by (simp add: shell_sample(1))
  have h4: "1 = 1 + (if 0 \<le> fval (shell_float exact_fpu ?r)
                     then \<lfloor>fval (shell_float exact_fpu ?r)\<rfloor>
                     else \<lceil>fval (shell_float exact_fpu ?r)\<rceil>)"
    using shell_sample(2) sqrt_10001_bounds by (simp add: shell_sample(1))
  have h5: "Fin 0 = fmul exact_fpu (float_of_int exact_fpu 1)
               (not_in_mask_ra exact_fpu (Fin 100, Fin 0, Fin (- 1)))"
    by (simp add: ra_sample fmul_def float_of_int_def signed_zero_def)
  have dec: "not_in_mask_dec exact_fpu (Fin 100, Fin 0, Fin (- 1)) = Fin dv"
    by (simp only: dv_def dec_sample)
  have h6: "Fin dv = fmul exact_fpu (float_of_int exact_fpu 1)
               (not_in_mask_dec exact_fpu (Fin 100, Fin 0, Fin (- 1)))"
    using dv by (simp add: dec fmul_def float_of_int_def exact_rnd_small)
  have h7: "ffinite (Fin 0)" and h8: "ffinite (Fin dv)" by simp_all
  have h9: "0 = (if 0 \<le> fval (Fin 0) then \<lfloor>fval (Fin 0)\<rfloor> else \<lceil>fval (Fin 0)\<rceil>)"
    by simp
  have h10: "90 = (if 0 \<le> fval (Fin dv) then \<lfloor>fval (Fin dv)\<rfloor> else \<lceil>fval (Fin dv)\<rceil>)
                    + 90 * 1"
    using dv by (simp add: ceiling_eq_iff)
  note t = mask_cell_truncated [OF h1 h2 h3 h4 h5 h6 h7 h8 h9 h10, of band_mask]
  have "- (2 ^ 63) < (1::int) \<and> (1::int) \<le> 2 ^ 63" by simp
  with t show ?thesis by blast
qed

subsection \<open>\<open>in_mask\<close> against \<open>not_in_mask\<close>\<close>

text \<open>
  Claim C9. For one row with \<open>x \<noteq> 0\<close> for which the shell and the subscripts of the
  mask are in range (\<open>int\<close> of the shell float and the lookup return a flag; a Python
  list has fewer than \<open>2^63\<close> entries), \<open>in_mask\<close> returns the one-element array
  holding exactly the negation of what \<open>not_in_mask\<close> returns, which is the flag
  together with \<open>rmin \<le> r \<le> rmax\<close>, the two ends included. This holds for every
  floating point unit.
\<close>

theorem in_mask_is_not_not_in_mask:
  assumes "\<not> fzero x"
    and "int (length m) < 2 ^ 63"
    and "bind_err (py_int (shell_float fp (norm64 fp (x, y, z)))) (\<lambda>k.
           mask_lookup fp m (1 + k) (not_in_mask_ra fp (x, y, z)) (not_in_mask_dec fp (x, y, z)))
         = Inr flag"
  shows "\<exists>g. in_mask fp [(x, y, z)] m (rmin, rmax) = Inr [g]
           \<and> not_in_mask fp [(x, y, z)] m rmin rmax = Inr (\<not> g)
           \<and> g = (flag \<and> fge (norm64 fp (x, y, z)) rmin \<and> fle (norm64 fp (x, y, z)) rmax)"
proof -
  let ?p = "(x, y, z)"
  let ?r = "norm64 fp ?p"
  obtain k where k: "py_int (shell_float fp ?r) = Inr k"
    and look: "mask_lookup fp m (1 + k) (not_in_mask_ra fp ?p) (not_in_mask_dec fp ?p) = Inr flag"
    using assms(3) by (cases "py_int (shell_float fp ?r)") auto
  have nn: "?r \<noteq> NaN"
  proof
    assume "?r = NaN"
    then have "py_int (shell_float fp ?r) = Inl ValueError" by (simp add: shell_float_NaN)
    then show False using k by simp
  qed
  obtain shell where "getitem m (1 + k - 1) = Inr shell"
    using look by (cases "getitem m (1 + k - 1)") (auto simp: mask_lookup_def)
  then have "- int (length m) \<le> k \<and> k < int (length m)"
    using getitem_bounds [of m k shell] by simp
  then have "- (2 ^ 63) \<le> k" "k < 2 ^ 63" using assms(2) by linarith+
  then have a: "astype_int (shell_float fp ?r) = k" by (rule py_int_castable [OF k])
  have i: "in_mask fp [?p] m (rmin, rmax) = Inr [flag \<and> fle ?r rmax \<and> fge ?r rmin]"
    by (simp add: in_mask_single a look)
  have n: "not_in_mask fp [?p] m rmin rmax
      = (if fless ?r rmin \<or> fgreater ?r rmax then Inr True else Inr (\<not> flag))"
    by (simp add: not_in_mask_single k look)
  show ?thesis
    using i n limits_not_NaN [OF nn, of rmin rmax] by auto
qed

theorem in_mask_is_not_not_in_mask_witness:
  "\<exists>g. in_mask exact_fpu [(Fin 100, Fin 0, Fin 0)] band_mask (100, 100) = Inr [g]
      \<and> not_in_mask exact_fpu [(Fin 100, Fin 0, Fin 0)] band_mask 100 100 = Inr (\<not> g)
      \<and> g = (True \<and> fge (norm64 exact_fpu (Fin 100, Fin 0, Fin 0)) 100
                \<and> fle (norm64 exact_fpu (Fin 100, Fin 0, Fin 0)) 100)"
proof -
  have sf: "shell_float exact_fpu (Fin 100) = Fin (pi / 180 * 100 / 10)"
    by (rule exact_shell_float) simp_all
  have "\<lfloor>pi / 18\<rfloor> = 0" using pi_less_4 by (simp add: floor_eq_iff)
  then have k: "py_int (shell_float exact_fpu (Fin 100)) = Inr 0"
    by (simp add: sf trunc_def)
  have dec: "not_in_mask_dec exact_fpu (Fin 100, Fin 0, Fin 0) = Fin 0"
    by (simp add: not_in_mask_dec_def exact_norm_x_axis fdiv_def fmul_def signed_zero_def
        exact_RtoD)
  have z: "fmul exact_fpu (float_of_int exact_fpu 1) (Fin 0) = Fin 0"
    by (simp add: fmul_def float_of_int_def signed_zero_def)
  have look: "mask_lookup exact_fpu band_mask 1 (Fin 0) (Fin 0) = Inr True"
    by (simp add: mask_lookup_finite z trunc_def band_mask_90)
  have h3: "bind_err (py_int (shell_float exact_fpu (norm64 exact_fpu (Fin 100, Fin 0, Fin 0))))
      (\<lambda>k. mask_lookup exact_fpu band_mask (1 + k)
              (not_in_mask_ra exact_fpu (Fin 100, Fin 0, Fin 0))
              (not_in_mask_dec exact_fpu (Fin 100, Fin 0, Fin 0))) = Inr True"
    by (simp add: exact_norm_x_axis k ra_sample dec look)
  have h1: "\<not> fzero (Fin 100)" by simp
  have h2: "int (length band_mask) < 2 ^ 63" by (simp add: band_mask_def)
  show ?thesis by (rule in_mask_is_not_not_in_mask [OF h1 h2 h3])
qed

subsection \<open>Angles in degrees\<close>

lemma degrees_unitD:
  assumes "degrees_unit fp"
  shows "u \<le> v \<Longrightarrow> fle2 (rnd fp u) (rnd fp v)"
    and "rnd fp 0 = Fin 0" "rnd fp 90 = Fin 90" "rnd fp 180 = Fin 180"
      "rnd fp 270 = Fin 270" "rnd fp (- 90) = Fin (- 90)"
    and "RtoD fp = Fin (fval (RtoD fp))" "0 < fval (RtoD fp)"
    and "0 < atan_inf fp" "\<bar>atan64 fp w\<bar> \<le> atan_inf fp"
    and "w < 0 \<Longrightarrow> atan64 fp w \<le> 0" "0 < w \<Longrightarrow> 0 \<le> atan64 fp w"
    and "rnd fp (atan_inf fp * fval (RtoD fp)) = Fin 90"
    and "rnd fp (- atan_inf fp * fval (RtoD fp)) = Fin (- 90)"
proof -
  show "u \<le> v \<Longrightarrow> fle2 (rnd fp u) (rnd fp v)"
    using assms unfolding degrees_unit_def by blast
  show "rnd fp 0 = Fin 0" "rnd fp 90 = Fin 90" "rnd fp 180 = Fin 180"
      "rnd fp 270 = Fin 270" "rnd fp (- 90) = Fin (- 90)"
    using assms unfolding degrees_unit_def by simp_all
  have "ffinite (RtoD fp)" and pos: "0 < fval (RtoD fp)"
    using assms unfolding degrees_unit_def by blast+
  then show "RtoD fp = Fin (fval (RtoD fp))" by (cases "RtoD fp") simp_all
  show "0 < fval (RtoD fp)" by (rule pos)
  show "0 < atan_inf fp" "\<bar>atan64 fp w\<bar> \<le> atan_inf fp"
    using assms unfolding degrees_unit_def by blast+
  show "w < 0 \<Longrightarrow> atan64 fp w \<le> 0" "0 < w \<Longrightarrow> 0 \<le> atan64 fp w"
    using assms unfolding degrees_unit_def by blast+
  show "rnd fp (atan_inf fp * fval (RtoD fp)) = Fin 90"
    "rnd fp (- atan_inf fp * fval (RtoD fp)) = Fin (- 90)"
    using assms unfolding degrees_unit_def by blast+
qed

lemma fle2_Fin_left: "fle2 (Fin lo) a \<Longrightarrow> a \<noteq> NaN \<and> a \<noteq> NInf \<and> (ffinite a \<longrightarrow> lo \<le> fval a)"
  by (cases a) simp_all

lemma fle2_Fin_right: "fle2 a (Fin hi) \<Longrightarrow> a \<noteq> NaN \<and> a \<noteq> PInf \<and> (ffinite a \<longrightarrow> fval a \<le> hi)"
  by (cases a) simp_all

lemma rnd_between:
  assumes "\<And>u v. u \<le> v \<Longrightarrow> fle2 (rnd fp u) (rnd fp v)"
    and "rnd fp lo = Fin lo" "rnd fp hi = Fin hi" "lo \<le> v" "v \<le> hi"
  shows "ffinite (rnd fp v) \<and> lo \<le> fval (rnd fp v) \<and> fval (rnd fp v) \<le> hi"
proof -
  have a: "fle2 (Fin lo) (rnd fp v)" using assms(1) [OF assms(4)] assms(2) by simp
  have b: "fle2 (rnd fp v) (Fin hi)" using assms(1) [OF assms(5)] assms(3) by simp
  have "ffinite (rnd fp v)"
    using fle2_Fin_left [OF a] fle2_Fin_right [OF b] by (cases "rnd fp v") simp_all
  then show ?thesis using fle2_Fin_left [OF a] fle2_Fin_right [OF b] by simp
qed

lemma finite_zero_or_Fin:
  assumes "ffinite a"
  shows "fzero a \<and> fval a = 0 \<or> a = Fin (fval a) \<and> fval a \<noteq> 0"
  using assms by (cases a) auto

lemma exact_rnd_mono: "u \<le> v \<Longrightarrow> fle2 (exact_rnd u) (exact_rnd v)"
  by (auto simp: exact_rnd_def)

lemma exact_degrees_unit: "degrees_unit exact_fpu"
proof -
  have r: "fval (RtoD exact_fpu) = 180 / pi" by (simp add: exact_RtoD)
  have "pi / 2 * (180 / pi) = 90" by simp
  then have p: "exact_rnd (pi / 2 * (180 / pi)) = Fin 90"
    by (simp only: exact_rnd_small abs_numeral) (simp add: exact_rnd_small)
  have "- (pi / 2) * (180 / pi) = - 90" by simp
  then have n: "exact_rnd (- (pi / 2) * (180 / pi)) = Fin (- 90)"
    by (simp only:) (simp add: exact_rnd_small)
  have at: "\<bar>arctan v\<bar> \<le> pi / 2" for v
    using arctan_lbound [of v] arctan_ubound [of v] by linarith
  show ?thesis
    unfolding degrees_unit_def
    using exact_rnd_mono p n at
    by (simp add: r exact_RtoD exact_rnd_small)
qed

lemma arctan_degrees:
  assumes u: "degrees_unit fp" and q: "q \<noteq> NaN"
  shows "ffinite (fmul fp (np_arctan fp q) (RtoD fp))
       \<and> - 90 \<le> fval (fmul fp (np_arctan fp q) (RtoD fp))
       \<and> fval (fmul fp (np_arctan fp q) (RtoD fp)) \<le> 90"
proof -
  define R where "R = fval (RtoD fp)"
  define H where "H = atan_inf fp"
  have RD: "RtoD fp = Fin R" and R: "0 < R"
    using degrees_unitD(7,8) [OF u] by (simp_all only: R_def)
  have H: "0 < H" using degrees_unitD(9) [OF u] by (simp only: H_def)
  have hi: "rnd fp (H * R) = Fin 90" and lo: "rnd fp (- H * R) = Fin (- 90)"
    using degrees_unitD(13,14) [OF u] by (simp_all only: H_def R_def)
  have mono: "\<And>a b. a \<le> b \<Longrightarrow> fle2 (rnd fp a) (rnd fp b)"
    by (rule degrees_unitD(1) [OF u])
  have rng: "ffinite (rnd fp (t * R)) \<and> - 90 \<le> fval (rnd fp (t * R)) \<and> fval (rnd fp (t * R)) \<le> 90"
    if "\<bar>t\<bar> \<le> H" for t
  proof -
    have "- H \<le> t" "t \<le> H" using that by linarith+
    then have "- H * R \<le> t * R" "t * R \<le> H * R"
      using R by (simp_all only: mult_right_mono less_imp_le)
    moreover have "rnd fp (- H * R) = Fin (- 90)" "rnd fp (H * R) = Fin 90" by (rule lo, rule hi)
    ultimately have "fle2 (Fin (- 90)) (rnd fp (t * R))" "fle2 (rnd fp (t * R)) (Fin 90)"
      using mono [of "- H * R" "t * R"] mono [of "t * R" "H * R"] by simp_all
    then show ?thesis
      using fle2_Fin_left [of "- 90" "rnd fp (t * R)"] fle2_Fin_right [of "rnd fp (t * R)" 90]
      by (cases "rnd fp (t * R)") simp_all
  qed
  have fin: "ffinite (fmul fp (Fin t) (Fin R)) \<and> - 90 \<le> fval (fmul fp (Fin t) (Fin R))
      \<and> fval (fmul fp (Fin t) (Fin R)) \<le> 90" if "\<bar>t\<bar> \<le> H" for t
    using rng [OF that] R by (simp add: fmul_def signed_zero_def)
  have at: "\<bar>atan64 fp w\<bar> \<le> H" for w
    using degrees_unitD(10) [OF u] by (simp only: H_def)
  have "(\<exists>t. np_arctan fp q = Fin t \<and> \<bar>t\<bar> \<le> H) \<or> np_arctan fp q = NZero"
    using q at H by (cases q) (simp_all add: H_def [symmetric])
  then show ?thesis
  proof
    assume "\<exists>t. np_arctan fp q = Fin t \<and> \<bar>t\<bar> \<le> H"
    then obtain t where "np_arctan fp q = Fin t" "\<bar>t\<bar> \<le> H" by blast
    then show ?thesis using fin [of t] by (simp only: RD)
  next
    assume "np_arctan fp q = NZero"
    then show ?thesis by (simp add: RD fmul_def signed_zero_def)
  qed
qed

lemma rnd_not_NaN: "degrees_unit fp \<Longrightarrow> rnd fp v \<noteq> NaN"
  using degrees_unitD(1) [of fp v v] by (cases "rnd fp v") simp_all

lemma arctan_degrees_nonpos:
  assumes u: "degrees_unit fp" and q: "fle2 q (Fin 0)"
  shows "fval (fmul fp (np_arctan fp q) (RtoD fp)) \<le> 0"
proof -
  define R where "R = fval (RtoD fp)"
  define H where "H = atan_inf fp"
  have RD: "RtoD fp = Fin R" and R: "0 < R"
    using degrees_unitD(7,8) [OF u] by (simp_all only: R_def)
  have H: "0 < H" using degrees_unitD(9) [OF u] by (simp only: H_def)
  have neg: "\<And>w. w < 0 \<Longrightarrow> atan64 fp w \<le> 0" by (rule degrees_unitD(11) [OF u])
  have z: "rnd fp 0 = Fin 0" by (rule degrees_unitD(2) [OF u])
  have prod: "fval (fmul fp (Fin t) (Fin R)) \<le> 0" if "t \<le> 0" for t
  proof (cases "t = 0")
    case True
    then show ?thesis by (simp add: fmul_def signed_zero_def)
  next
    case False
    have "t * R \<le> 0" using that R by (simp add: mult_le_0_iff)
    then have "fle2 (rnd fp (t * R)) (Fin 0)" using degrees_unitD(1) [OF u, of "t * R" 0] z by simp
    then have "fval (rnd fp (t * R)) \<le> 0" by (cases "rnd fp (t * R)") simp_all
    then show ?thesis using False R by (simp add: fmul_def)
  qed
  have "(\<exists>t. np_arctan fp q = Fin t \<and> t \<le> 0) \<or> np_arctan fp q = NZero"
    using q neg H by (cases q) (auto simp: H_def [symmetric])
  then show ?thesis
  proof
    assume "\<exists>t. np_arctan fp q = Fin t \<and> t \<le> 0"
    then obtain t where "np_arctan fp q = Fin t" "t \<le> 0" by blast
    then show ?thesis using prod [of t] by (simp only: RD)
  next
    assume "np_arctan fp q = NZero"
    then show ?thesis by (simp add: RD fmul_def signed_zero_def)
  qed
qed

lemma add_degrees:
  assumes u: "degrees_unit fp" and a: "ffinite a" "- 90 \<le> fval a" "fval a \<le> hi - 180"
    and hi: "hi = 180 \<or> hi = 270"
  shows "\<exists>s. fadd fp a (Fin 180) = Fin s \<and> 90 \<le> s \<and> s \<le> hi"
proof (cases "fzero a")
  case True
  then have "fadd fp a (Fin 180) = Fin 180" using a(1) by (cases a) (simp_all add: fadd_def)
  then show ?thesis using hi by auto
next
  case False
  define v where "v = fval a + 180"
  have v: "90 \<le> v" "v \<le> hi" using a(2,3) by (simp_all add: v_def)
  have "rnd fp hi = Fin hi" using hi degrees_unitD(4,5) [OF u] by auto
  then have "ffinite (rnd fp v) \<and> 90 \<le> fval (rnd fp v) \<and> fval (rnd fp v) \<le> hi"
    using rnd_between [of fp 90 hi v] degrees_unitD(1,3) [OF u] v by blast
  then have r: "rnd fp v = Fin (fval (rnd fp v))" "90 \<le> fval (rnd fp v)" "fval (rnd fp v) \<le> hi"
    by (cases "rnd fp v"; simp)+
  have "fadd fp a (Fin 180) = rnd fp v"
    using False a(1) v by (cases a) (simp_all add: fadd_def v_def)
  then show ?thesis using r by metis
qed

lemma ra_of_infinite_quotient:
  assumes u: "degrees_unit fp"
  shows "fmul fp (np_arctan fp PInf) (RtoD fp) = Fin 90"
    and "fmul fp (np_arctan fp NInf) (RtoD fp) = Fin (- 90)"
    and "fadd fp (Fin (- 90)) (Fin 180) = Fin 90"
    and "fadd fp (Fin (- 90)) (Fin 360) = Fin 270"
proof -
  define R where "R = fval (RtoD fp)"
  define H where "H = atan_inf fp"
  have RD: "RtoD fp = Fin R" and R: "0 < R"
    using degrees_unitD(7,8) [OF u] by (simp_all only: R_def)
  have H: "0 < H" using degrees_unitD(9) [OF u] by (simp only: H_def)
  have hi: "rnd fp (H * R) = Fin 90" and lo: "rnd fp (- H * R) = Fin (- 90)"
    using degrees_unitD(13,14) [OF u] by (simp_all only: H_def R_def)
  show "fmul fp (np_arctan fp PInf) (RtoD fp) = Fin 90"
    using H R hi by (simp add: RD fmul_def H_def [symmetric])
  show "fmul fp (np_arctan fp NInf) (RtoD fp) = Fin (- 90)"
    using H R lo by (simp add: RD fmul_def H_def [symmetric])
  show "fadd fp (Fin (- 90)) (Fin 180) = Fin 90"
    using degrees_unitD(3) [OF u] by (simp add: fadd_def)
  show "fadd fp (Fin (- 90)) (Fin 360) = Fin 270"
    using degrees_unitD(5) [OF u] by (simp add: fadd_def)
qed

subsection \<open>Right ascension of a point with negative x\<close>

text \<open>
  Claim C3, as stated, fails: the right ascension of a point with \<open>x < 0\<close> and
  \<open>y > 0\<close> is not always strictly above 90 degrees. For \<open>x = -2^-600\<close> and
  \<open>y = 2^600\<close> the quotient \<open>y/x\<close> overflows to minus infinity, whose \<open>arctan\<close> in
  degrees is -90, and both functions assign the right ascension 90.
\<close>

theorem ra_not_above_90:
  "not_in_mask_ra exact_fpu (Fin (- (1 / 2 ^ 600)), Fin (2 ^ 600), Fin 0) = Fin 90
     \<and> in_mask_ra exact_fpu [(Fin (- (1 / 2 ^ 600)), Fin (2 ^ 600), Fin 0)] = [Fin 90]"
proof -
  define X :: real where "X = - (1 / 2 ^ 600)"
  define Y :: real where "Y = 2 ^ 600"
  have xy: "X < 0" "Y \<noteq> 0" "X \<noteq> 0" by (simp_all add: X_def Y_def)
  have "Y / X = - (2 ^ 1200)" by (simp add: X_def Y_def)
  moreover have "- ((2::real) ^ 1200) \<le> - (2 ^ 1024)" by simp
  ultimately have "exact_rnd (Y / X) = NInf"
    by (simp only: exact_rnd_def) simp
  then have q: "fdiv exact_fpu (Fin Y) (Fin X) = NInf"
    using xy by (simp add: fdiv_def)
  have "not_in_mask_ra exact_fpu (Fin X, Fin Y, Fin 0) = Fin 90"
    using ra_of_infinite_quotient(2,3) [OF exact_degrees_unit] xy
    by (simp add: not_in_mask_ra_def not_in_mask_arctan_arg_def q Let_def fnonzero_def
        del: np_arctan.simps)
  then have "not_in_mask_ra exact_fpu (Fin X, Fin Y, Fin 0) = Fin 90
     \<and> in_mask_ra exact_fpu [(Fin X, Fin Y, Fin 0)] = [Fin 90]"
    by (simp add: in_mask_ra_single)
  then show ?thesis by (simp only: X_def Y_def)
qed

text \<open>
  Claim C3, amended. For a point with \<open>x < 0\<close> and \<open>y \<noteq> 0\<close>, both \<open>not_in_mask\<close> and
  \<open>in_mask\<close> add 180 to \<open>arctan(y/x)\<close> in degrees, and the later step that adds 360 to
  a negative value leaves the sum as it is; the right ascension so assigned is finite and
  lies from 90 to 270 degrees, the ends included, and from 90 to 180 for \<open>y > 0\<close>. This
  holds for every floating point unit with the properties of \<open>degrees_unit\<close>.
\<close>

theorem ra_second_third_quadrant:
  assumes "degrees_unit fp" and "xv < 0" and "yv \<noteq> 0"
  shows "not_in_mask_ra fp (Fin xv, Fin yv, z)
           = fadd fp (fmul fp (np_arctan fp (fdiv fp (Fin yv) (Fin xv))) (RtoD fp)) (Fin 180)
       \<and> in_mask_ra fp [(Fin xv, Fin yv, z)]
           = [fadd fp (fmul fp (np_arctan fp (fdiv fp (Fin yv) (Fin xv))) (RtoD fp)) (Fin 180)]
       \<and> (\<exists>ra. not_in_mask_ra fp (Fin xv, Fin yv, z) = Fin ra
                 \<and> 90 \<le> ra \<and> ra \<le> 270 \<and> (0 < yv \<longrightarrow> ra \<le> 180))"
proof -
  define q where "q = fdiv fp (Fin yv) (Fin xv)"
  define a where "a = fmul fp (np_arctan fp q) (RtoD fp)"
  have qr: "q = rnd fp (yv / xv)" using assms(2,3) by (simp add: q_def fdiv_def)
  then have qn: "q \<noteq> NaN" using rnd_not_NaN [OF assms(1)] by simp
  have a: "ffinite a" "- 90 \<le> fval a" "fval a \<le> 90"
    using arctan_degrees [OF assms(1) qn] by (simp_all only: a_def)
  obtain s where s: "fadd fp a (Fin 180) = Fin s" "90 \<le> s" "s \<le> 270"
    using add_degrees [OF assms(1) a(1,2), of 270] a(3) by auto
  have up: "s \<le> 180" if "0 < yv"
  proof -
    have "yv / xv \<le> 0" using that assms(2) by (simp add: divide_le_0_iff)
    then have "fle2 q (Fin 0)"
      using degrees_unitD(1) [OF assms(1), of "yv / xv" 0] degrees_unitD(2) [OF assms(1)]
      by (simp add: qr)
    then have "fval a \<le> 0" using arctan_degrees_nonpos [OF assms(1)] by (simp only: a_def)
    then obtain s' where "fadd fp a (Fin 180) = Fin s'" "s' \<le> 180"
      using add_degrees [OF assms(1) a(1,2), of 180] by auto
    then show ?thesis using s(1) by simp
  qed
  have ra: "not_in_mask_ra fp (Fin xv, Fin yv, z) = fadd fp a (Fin 180)"
    using assms(2,3) s
    by (simp add: not_in_mask_ra_def not_in_mask_arctan_arg_def Let_def fnonzero_def
        a_def q_def)
  show ?thesis
    using ra s up by (simp add: in_mask_ra_single a_def q_def)
qed

theorem ra_second_third_quadrant_witness:
  "not_in_mask_ra exact_fpu (Fin (- 1), Fin 1, Fin 0)
     = fadd exact_fpu
         (fmul exact_fpu (np_arctan exact_fpu (fdiv exact_fpu (Fin 1) (Fin (- 1)))) (RtoD exact_fpu))
         (Fin 180)
   \<and> (\<exists>ra. not_in_mask_ra exact_fpu (Fin (- 1), Fin 1, Fin 0) = Fin ra \<and> 90 \<le> ra \<and> ra \<le> 180)"
proof -
  have h2: "(- 1 :: real) < 0" and h3: "(1::real) \<noteq> 0" by simp_all
  note t = ra_second_third_quadrant [OF exact_degrees_unit h2 h3, of "Fin 0"]
  from t obtain ra where r: "not_in_mask_ra exact_fpu (Fin (- 1), Fin 1, Fin 0) = Fin ra"
    "90 \<le> ra" "(0::real) < 1 \<longrightarrow> ra \<le> 180"
    by blast
  have e: "\<exists>ra. not_in_mask_ra exact_fpu (Fin (- 1), Fin 1, Fin 0) = Fin ra \<and> 90 \<le> ra \<and> ra \<le> 180"
    using r by (intro exI [of _ ra]) simp
  from t e show ?thesis by blast
qed

subsection \<open>Right ascension of a point with x = 0\<close>




subsection \<open>\<open>in_survey\<close>\<close>

lemma in_survey_loop_all:
  assumes "\<forall>name\<in>set names. min_limit name \<noteq> None \<and> max_limit name \<noteq> None"
    and "length good = length (rows t)"
  shows "in_survey_loop t min_limit max_limit names good =
     Inr (map (\<lambda>(g, row). g \<and> (\<forall>name\<in>set names.
              the (min_limit name) < row name \<and> row name < the (max_limit name)))
           (zip good (rows t)))"
  using assms
proof (induction names arbitrary: good)
  case Nil
  then have "map (\<lambda>(g, row). g) (zip good (rows t)) = good"
    by (intro nth_equalityI) simp_all
  then show ?case by simp
next
  case (Cons name names)
  obtain lo hi where lim: "min_limit name = Some lo" "max_limit name = Some hi"
    using Cons.prems(1) by auto
  let ?good' = "map (\<lambda>(g, a, b). g \<and> a \<and> b)
      (zip good (zip (map (\<lambda>v. v > lo) (column t name)) (map (\<lambda>v. v < hi) (column t name))))"
  have len: "length ?good' = length (rows t)"
    using Cons.prems(2) by (simp add: column_def)
  have step: "?good' = map (\<lambda>(g, row). g \<and> lo < row name \<and> row name < hi) (zip good (rows t))"
    using Cons.prems(2)
    by (intro nth_equalityI) (simp_all add: column_def)
  have rest: "\<forall>name\<in>set names. min_limit name \<noteq> None \<and> max_limit name \<noteq> None"
    using Cons.prems(1) by simp
  have "in_survey_loop t min_limit max_limit (name # names) good =
      in_survey_loop t min_limit max_limit names ?good'"
    by (simp add: limit_def lim Let_def)
  also have "\<dots> = Inr (map (\<lambda>(g, row). g \<and> (\<forall>name\<in>set names.
              the (min_limit name) < row name \<and> row name < the (max_limit name)))
           (zip ?good' (rows t)))"
    by (rule Cons.IH [OF rest len])
  also have "\<dots> = Inr (map (\<lambda>(g, row). g \<and> (\<forall>name\<in>set (name # names).
              the (min_limit name) < row name \<and> row name < the (max_limit name)))
           (zip good (rows t)))"
    using Cons.prems(2) unfolding step
    by (auto intro!: nth_equalityI simp: lim)
  finally show ?case .
qed

text \<open>
  Claim C10. With limits given for every column, \<open>in_survey\<close> returns one boolean per
  row, and the boolean of a row is True if and only if the row's value in every column is
  strictly greater than the minimum and strictly less than the maximum of that column; a
  row with a value equal to a limit in some column gets False.
\<close>

theorem in_survey_strict:
  assumes "\<forall>name\<in>set (colnames t). min_limit name \<noteq> None \<and> max_limit name \<noteq> None"
  shows "\<exists>good. in_survey t min_limit max_limit = Inr good
           \<and> length good = length (rows t)
           \<and> (\<forall>i<length (rows t).
                 good ! i = (\<forall>name\<in>set (colnames t).
                    the (min_limit name) < (rows t ! i) name
                      \<and> (rows t ! i) name < the (max_limit name)))
           \<and> (\<forall>i<length (rows t).
                 (\<exists>name\<in>set (colnames t).
                    (rows t ! i) name = the (min_limit name)
                      \<or> (rows t ! i) name = the (max_limit name))
                 \<longrightarrow> good ! i = False)"
proof -
  have "in_survey t min_limit max_limit =
     Inr (map (\<lambda>(g, row). g \<and> (\<forall>name\<in>set (colnames t).
              the (min_limit name) < row name \<and> row name < the (max_limit name)))
           (zip (replicate (length (rows t)) True) (rows t)))"
    unfolding in_survey_def by (rule in_survey_loop_all [OF assms]) simp
  then obtain good where g: "in_survey t min_limit max_limit = Inr good"
    "good = map (\<lambda>(g, row). g \<and> (\<forall>name\<in>set (colnames t).
              the (min_limit name) < row name \<and> row name < the (max_limit name)))
           (zip (replicate (length (rows t)) True) (rows t))"
    by blast
  have len: "length good = length (rows t)" by (simp add: g(2))
  have val: "\<forall>i<length (rows t).
      good ! i = (\<forall>name\<in>set (colnames t).
         the (min_limit name) < (rows t ! i) name \<and> (rows t ! i) name < the (max_limit name))"
    by (simp add: g(2))
  have "\<forall>i<length (rows t).
      (\<exists>name\<in>set (colnames t).
         (rows t ! i) name = the (min_limit name) \<or> (rows t ! i) name = the (max_limit name))
      \<longrightarrow> good ! i = False"
    using val by fastforce
  then show ?thesis using g(1) len val by blast
qed

theorem in_survey_strict_witness:
  "in_survey sample_table sample_min sample_max = Inr [True, False]"
proof -
  have h: "\<forall>name\<in>set (colnames sample_table).
      sample_min name \<noteq> None \<and> sample_max name \<noteq> None"
    by (simp add: sample_table_def sample_min_def sample_max_def)
  obtain good where g: "in_survey sample_table sample_min sample_max = Inr good"
    "length good = length (rows sample_table)"
    "\<forall>i<length (rows sample_table).
       good ! i = (\<forall>name\<in>set (colnames sample_table).
          the (sample_min name) < (rows sample_table ! i) name
            \<and> (rows sample_table ! i) name < the (sample_max name))"
    using in_survey_strict [OF h] by blast
  have len: "length good = 2" using g(2) by (simp add: sample_table_def)
  have "good ! 0 = True" "good ! 1 = False"
    using g(3) by (simp_all add: sample_table_def sample_min_def sample_max_def)
  moreover obtain a b where "good = [a, b]"
    using len by (auto simp: numeral_2_eq_2 length_Suc_conv)
  ultimately have "good = [True, False]" by simp
  then show ?thesis using g(1) by simp
qed

subsection \<open>\<open>build_mask\<close>\<close>

lemma build_mask_nonempty: "build_mask (entry # rest) = Inl NameError"
  by (simp add: build_mask_def module_global_def)

text \<open>
  Claim C8 at a failing input. \<open>build_mask\<close> reads the globals \<open>maskra\<close> and
  \<open>maskdec\<close> in the first round of its loop, and the module binds neither: for the
  footprint of one shell with the one bin \<open>(0, 0)\<close>, as for every footprint that is not
  empty, it raises NameError and returns no array.
\<close>

theorem build_mask_raises_NameError:
  "build_mask [([0], [0])] = Inl NameError"
  by (simp add: build_mask_def module_global_def)

subsection \<open>Grid cells\<close>

lemma cell_ID_loop_map:
  "cell_ID_loop cells d = (\<lambda>c. if c \<in> set cells then Some 1 else d c)"
  by (induction cells arbitrary: d) (auto simp: fun_eq_iff)

lemma has_shape3_nth:
  assumes "has_shape3 a nx ny nz" "i < nx" "j < ny"
  shows "length a = nx" "length (a ! i) = ny" "length (a ! i ! j) = nz"
  using assms by (auto simp: has_shape3_def list_all_length)

lemma has_shape3_replicate: "has_shape3 (replicate nx (replicate ny (replicate nz v))) nx ny nz"
  by (simp add: has_shape3_def list_all_length)

lemma getitem_nat: "i < length xs \<Longrightarrow> getitem xs (int i) = Inr (xs ! i)"
  by (simp add: getitem_def)

lemma setitem_nat: "i < length xs \<Longrightarrow> setitem xs (int i) v = Inr (xs[i := v])"
  by (simp add: setitem_def)

lemma incr3_in_range:
  assumes "has_shape3 a nx ny nz" "i < nx" "j < ny" "k < nz"
  shows "incr3 a (int i, int j, int k)
       = Inr (a[i := (a ! i)[j := (a ! i ! j)[k := a ! i ! j ! k + 1]]])"
  using has_shape3_nth [OF assms(1-3)] assms(2-4)
  by (simp add: incr3_def getitem_nat setitem_nat)

lemma incr3_shape:
  assumes "has_shape3 a nx ny nz" "i < nx" "j < ny" "k < nz"
  shows "has_shape3 (a[i := (a ! i)[j := (a ! i ! j)[k := v]]]) nx ny nz"
  using assms by (auto simp: has_shape3_def list_all_length nth_list_update)

lemma incr3_value:
  fixes a :: "int list list list"
  assumes "has_shape3 a nx ny nz" "i < nx" "j < ny" "k < nz" "i' < nx" "j' < ny" "k' < nz"
  shows "a[i := (a ! i)[j := (a ! i ! j)[k := a ! i ! j ! k + 1]]] ! i' ! j' ! k'
       = a ! i' ! j' ! k' + (if (i', j', k') = (i, j, k) then 1 else 0)"
  using has_shape3_nth [OF assms(1-3)] assms(2-7)
  by (auto simp: nth_list_update)

lemma mesh_galaxies_loop_counts:
  assumes "has_shape3 a nx ny nz"
    and "\<forall>c\<in>set cells. cell_in_grid (int nx, int ny, int nz) c"
  shows "\<exists>a'. mesh_galaxies_loop cells a = Inr a' \<and> has_shape3 a' nx ny nz
           \<and> (\<forall>i<nx. \<forall>j<ny. \<forall>k<nz.
                 a' ! i ! j ! k
                   = a ! i ! j ! k + int (length (filter (\<lambda>c. c = (int i, int j, int k)) cells)))"
  using assms
proof (induction cells arbitrary: a)
  case Nil
  then show ?case by simp
next
  case (Cons c cells)
  obtain ci cj ck where c: "c = (ci, cj, ck)" by (cases c)
  have "cell_in_grid (int nx, int ny, int nz) c" using Cons.prems(2) by simp
  then obtain i0 j0 k0 where idx: "ci = int i0" "cj = int j0" "ck = int k0"
    "i0 < nx" "j0 < ny" "k0 < nz"
    unfolding c cell_in_grid_def
    by (auto elim!: nonneg_int_cases)
  let ?a1 = "a[i0 := (a ! i0)[j0 := (a ! i0 ! j0)[k0 := a ! i0 ! j0 ! k0 + 1]]]"
  have step: "incr3 a c = Inr ?a1"
    unfolding c idx(1-3) by (rule incr3_in_range [OF Cons.prems(1) idx(4-6)])
  have shape1: "has_shape3 ?a1 nx ny nz"
    by (rule incr3_shape [OF Cons.prems(1) idx(4-6)])
  have rest: "\<forall>c\<in>set cells. cell_in_grid (int nx, int ny, int nz) c"
    using Cons.prems(2) by simp
  obtain a' where a': "mesh_galaxies_loop cells ?a1 = Inr a'" "has_shape3 a' nx ny nz"
    "\<forall>i<nx. \<forall>j<ny. \<forall>k<nz.
       a' ! i ! j ! k
         = ?a1 ! i ! j ! k + int (length (filter (\<lambda>c. c = (int i, int j, int k)) cells))"
    using Cons.IH [OF shape1 rest] by blast
  have "mesh_galaxies_loop (c # cells) a = Inr a'"
    by (simp add: step a'(1))
  moreover have "\<forall>i<nx. \<forall>j<ny. \<forall>k<nz.
       a' ! i ! j ! k
         = a ! i ! j ! k + int (length (filter (\<lambda>c. c = (int i, int j, int k)) (c # cells)))"
  proof (intro allI impI)
    fix i j k assume r: "i < nx" "j < ny" "k < nz"
    have "?a1 ! i ! j ! k = a ! i ! j ! k + (if (i, j, k) = (i0, j0, k0) then 1 else 0)"
      by (rule incr3_value [OF Cons.prems(1) idx(4-6) r])
    then show "a' ! i ! j ! k
         = a ! i ! j ! k + int (length (filter (\<lambda>c. c = (int i, int j, int k)) (c # cells)))"
      using a'(3) r by (auto simp: c idx(1-3))
  qed
  ultimately show ?case using a'(2) by blast
qed

lemma fsub_nonneg:
  assumes u: "sign_unit fp" and c: "coord_ge v lo"
  shows "fsub fp v lo \<noteq> NaN \<and> fsub fp v lo \<noteq> NInf \<and> 0 \<le> fval (fsub fp v lo)"
proof -
  have f: "ffinite v" "ffinite lo" "fval lo \<le> fval v" using c by (simp_all add: coord_ge_def)
  have nn: "v \<noteq> NaN" "lo \<noteq> NaN" "\<not> finf v" "\<not> finf lo"
    using f(1,2) by (cases v; cases lo; simp)+
  show ?thesis
  proof (cases "fzero v \<or> fzero lo \<or> fval v - fval lo = 0")
    case True
    have zv: "fzero a \<Longrightarrow> ffinite a \<Longrightarrow> fval a = 0" for a by (cases a) simp_all
    show ?thesis
      using True nn f zv [of v] zv [of lo]
      by (cases v; cases lo) (auto simp: fsub_def signed_zero_def)
  next
    case False
    then have p: "0 < fval v - fval lo" using f(3) by simp
    have "fsub fp v lo = rnd fp (fval v - fval lo)"
      using False nn by (simp add: fsub_def)
    moreover have "\<not> fneg (rnd fp (fval v - fval lo)) \<and> rnd fp (fval v - fval lo) \<noteq> NaN"
      using u p unfolding sign_unit_def by blast
    ultimately show ?thesis by (cases "rnd fp (fval v - fval lo)") simp_all
  qed
qed

lemma quotient_nonneg:
  assumes u: "sign_unit fp" and c: "coord_ge v lo" and d: "ffinite d" "0 < fval d"
  shows "0 \<le> fval (quotient fp lo d v)"
proof -
  define s where "s = fsub fp v lo"
  have s: "s \<noteq> NaN" "s \<noteq> NInf" "0 \<le> fval s"
    using fsub_nonneg [OF u c] unfolding s_def by blast+
  obtain dv where dd: "d = Fin dv" "0 < dv" using d by (cases d) simp_all
  show ?thesis
  proof (cases "finf s \<or> fzero s")
    case True
    then have "fval (fdiv fp s (Fin dv)) = 0"
      using s dd(2) by (cases s) (auto simp: fdiv_def signed_zero_def signed_inf_def)
    then show ?thesis by (simp add: quotient_def s_def dd(1))
  next
    case False
    then obtain sv where sv: "s = Fin sv" "0 < sv" using s by (cases s) auto
    then have p: "0 < sv / dv" using dd(2) by simp
    have "fdiv fp s (Fin dv) = rnd fp (sv / dv)"
      using sv dd(2) by (simp add: fdiv_def)
    moreover have "\<not> fneg (rnd fp (sv / dv))"
      using u p unfolding sign_unit_def by blast
    ultimately have "0 \<le> fval (fdiv fp s (Fin dv))"
      by (cases "rnd fp (sv / dv)") simp_all
    then show ?thesis by (simp add: quotient_def s_def dd(1))
  qed
qed

lemma astype_quotient:
  assumes "sign_unit fp" "coord_ge v lo" "ffinite d" "0 < fval d"
    and "castable (quotient fp lo d v)"
  shows "astype_int (fdiv fp (fsub fp v lo) d) = \<lfloor>fval (quotient fp lo d v)\<rfloor>"
proof -
  define q where "q = quotient fp lo d v"
  have n: "0 \<le> fval q" using quotient_nonneg [OF assms(1-4)] by (simp only: q_def)
  have c: "ffinite q" "fval q < 2 ^ 63" using assms(5) by (simp_all add: castable_def q_def)
  have t: "trunc (fval q) = \<lfloor>fval q\<rfloor>" using n by (rule trunc_nonneg)
  have "0 \<le> \<lfloor>fval q\<rfloor>" using n by simp
  moreover have "\<lfloor>fval q\<rfloor> < 2 ^ 63"
  proof -
    have "real_of_int \<lfloor>fval q\<rfloor> \<le> fval q" by simp
    then have "real_of_int \<lfloor>fval q\<rfloor> < real_of_int (2 ^ 63)" using c(2) by simp
    then show ?thesis by (simp only: of_int_less_iff)
  qed
  ultimately have "astype_int q = \<lfloor>fval q\<rfloor>"
    using c(1) t by (cases q) simp_all
  then show ?thesis by (simp add: q_def quotient_def)
qed

lemma mesh_indices_array_floor:
  assumes "sign_unit fp" and "ffinite d" "0 < fval d"
    and "\<forall>g\<in>set gals. coords_ge g cmin \<and> quotients_castable fp cmin d g"
  shows "mesh_indices_array fp gals cmin d = map (float_grid_cell fp cmin d) gals"
  using assms
  by (cases cmin)
    (auto simp: mesh_indices_array_def float_grid_cell_def coords_ge_def
      quotients_castable_def astype_quotient)

lemma table_indices_floor:
  assumes "sign_unit fp" and "ffinite d" "0 < fval d"
    and "\<forall>g\<in>set gals. coords_ge g cmin \<and> quotients_castable fp cmin d g"
  shows "table_dtype_cast_int (table_divide fp (subtract_row fp gals cmin) d)
       = map (float_grid_cell fp cmin d) gals"
  using assms
  by (cases cmin)
    (auto simp: table_dtype_cast_int_def table_divide_def subtract_row_def
      float_grid_cell_def coords_ge_def quotients_castable_def astype_quotient)

lemma trunc_half: "trunc (1 / 2) = 0" "trunc (3 / 2) = 1"
  by (simp_all add: trunc_def floor_eq_iff)

lemma exact_quotients:
  "fdiv exact_fpu (fsub exact_fpu (Fin 1) (Fin 0)) (Fin 2) = Fin (1 / 2)"
  "fdiv exact_fpu (fsub exact_fpu (Fin 3) (Fin 0)) (Fin 2) = Fin (3 / 2)"
  by (simp_all add: fsub_def fdiv_def exact_rnd_small)

text \<open>
  Claim C6, as stated, fails: the cell is not always the floor of
  \<open>(position - coord_min) / cell_edge_length\<close>. For a galaxy at \<open>x = 2^100\<close>, with
  \<open>coord_min\<close> at the origin and cell edge length 1, the float quotient \<open>2^100\<close> is
  outside int64, \<open>astype(int)\<close> stores the least int64, and the key in the dictionary of
  \<open>mesh_galaxies_dict\<close> is \<open>(-2^63, 0, 0)\<close>, not \<open>(2^100, 0, 0)\<close>.
\<close>

theorem mesh_cell_not_floor:
  "coords_ge (Fin (2 ^ 100), Fin 0, Fin 0) (Fin 0, Fin 0, Fin 0)
     \<and> mesh_galaxies_dict exact_fpu [(Fin (2 ^ 100), Fin 0, Fin 0)] (Fin 0, Fin 0, Fin 0) (Fin 1)
         (- (2 ^ 63), 0, 0) = Some 1
     \<and> mesh_galaxies_dict exact_fpu [(Fin (2 ^ 100), Fin 0, Fin 0)] (Fin 0, Fin 0, Fin 0) (Fin 1)
         (2 ^ 100, 0, 0) = None
     \<and> spec_grid_cell (Fin 0, Fin 0, Fin 0) (Fin 1) (Fin (2 ^ 100), Fin 0, Fin 0)
         = (2 ^ 100, 0, 0)"
proof -
  have "exact_rnd (2 ^ 100) = Fin (2 ^ 100)" by (simp add: exact_rnd_def)
  then have q: "fdiv exact_fpu (fsub exact_fpu (Fin (2 ^ 100)) (Fin 0)) (Fin 1) = Fin (2 ^ 100)"
    by (simp add: fsub_def fdiv_def)
  have z: "fdiv exact_fpu (fsub exact_fpu (Fin 0) (Fin 0)) (Fin 1) = Fin 0"
    by (simp add: fsub_def fdiv_def signed_zero_def)
  have "\<lfloor>(2::real) ^ 100\<rfloor> = 2 ^ 100" by (simp add: floor_eq_iff)
  then have a: "astype_int (Fin (2 ^ 100)) = - (2 ^ 63)" by (simp add: trunc_def)
  have i: "mesh_indices_array exact_fpu [(Fin (2 ^ 100), Fin 0, Fin 0)] (Fin 0, Fin 0, Fin 0) (Fin 1)
      = [(- (2 ^ 63), 0, 0)]"
    by (simp only: mesh_indices_array_def list.map prod.case q z a) (simp add: trunc_def)
  have d: "mesh_galaxies_dict exact_fpu [(Fin (2 ^ 100), Fin 0, Fin 0)] (Fin 0, Fin 0, Fin 0) (Fin 1)
      = cell_ID_loop [(- (2 ^ 63), 0, 0)] Map.empty"
    by (simp only: mesh_galaxies_dict_def i)
  have s: "spec_grid_cell (Fin 0, Fin 0, Fin 0) (Fin 1) (Fin (2 ^ 100), Fin 0, Fin 0)
      = (2 ^ 100, 0, 0)"
    by (simp add: spec_grid_cell_def floor_eq_iff)
  have c: "coords_ge (Fin (2 ^ 100), Fin 0, Fin 0) (Fin 0, Fin 0, Fin 0)"
    by (simp add: coords_ge_def coord_ge_def)
  have "cell_ID_loop [(- (2 ^ 63), 0, 0)] Map.empty (- (2 ^ 63), 0, 0) = Some 1"
    "cell_ID_loop [(- (2 ^ 63), 0, 0)] Map.empty (2 ^ 100, 0, 0) = None"
    by simp_all
  then show ?thesis using c s by (simp only: d)
qed

text \<open>
  Claim C6, amended. With a finite positive cell edge length, for galaxies with finite
  coordinates componentwise at least \<open>coord_min\<close> whose float quotients
  \<open>(position - coord_min) / cell_edge_length\<close> are finite and below \<open>2^63\<close>: the
  dictionary of \<open>mesh_galaxies_dict\<close> has exactly the cells made of the floors of these
  float quotients as keys, and, when these cells lie in the grid of \<open>N_boxes\<close>,
  \<open>mesh_galaxies\<close> returns the array that counts for every cell the galaxies with that
  cell. This holds for every floating point unit that rounds a positive result to a float
  that is not negative.
\<close>

theorem mesh_cells_floor:
  assumes "sign_unit fp"
    and "ffinite grid_side_length" and "0 < fval grid_side_length"
    and "\<forall>g\<in>set galaxy_coords.
           coords_ge g coord_min \<and> quotients_castable fp coord_min grid_side_length g"
  shows "mesh_galaxies_dict fp galaxy_coords coord_min grid_side_length
           = (\<lambda>c. if c \<in> float_grid_cell fp coord_min grid_side_length ` set galaxy_coords
                   then Some 1 else None)
       \<and> ((\<forall>g\<in>set galaxy_coords.
              cell_in_grid (int nx, int ny, int nz)
                (float_grid_cell fp coord_min grid_side_length g))
            \<longrightarrow> (\<exists>ngal. mesh_galaxies fp galaxy_coords coord_min grid_side_length
                             (int nx, int ny, int nz) = Inr ngal
                    \<and> has_shape3 ngal nx ny nz
                    \<and> (\<forall>i<nx. \<forall>j<ny. \<forall>k<nz.
                          ngal ! i ! j ! k
                            = int (length (filter
                                (\<lambda>g. float_grid_cell fp coord_min grid_side_length g
                                       = (int i, int j, int k))
                                galaxy_coords)))))"
proof (intro conjI impI)
  show "mesh_galaxies_dict fp galaxy_coords coord_min grid_side_length
           = (\<lambda>c. if c \<in> float_grid_cell fp coord_min grid_side_length ` set galaxy_coords
                   then Some 1 else None)"
    by (simp add: mesh_galaxies_dict_def mesh_indices_array_floor [OF assms] cell_ID_loop_map)
next
  let ?cells = "map (float_grid_cell fp coord_min grid_side_length) galaxy_coords"
  let ?z = "replicate nx (replicate ny (replicate nz (0::int)))"
  assume "\<forall>g\<in>set galaxy_coords.
      cell_in_grid (int nx, int ny, int nz) (float_grid_cell fp coord_min grid_side_length g)"
  then have inr: "\<forall>c\<in>set ?cells. cell_in_grid (int nx, int ny, int nz) c" by simp
  obtain a' where a': "mesh_galaxies_loop ?cells ?z = Inr a'" "has_shape3 a' nx ny nz"
    "\<forall>i<nx. \<forall>j<ny. \<forall>k<nz.
       a' ! i ! j ! k
         = ?z ! i ! j ! k + int (length (filter (\<lambda>c. c = (int i, int j, int k)) ?cells))"
    using mesh_galaxies_loop_counts [OF has_shape3_replicate inr] by blast
  have "mesh_galaxies fp galaxy_coords coord_min grid_side_length (int nx, int ny, int nz) = Inr a'"
    by (simp add: mesh_galaxies_def zeros3_def table_indices_floor [OF assms] a'(1))
  moreover have "\<forall>i<nx. \<forall>j<ny. \<forall>k<nz.
      a' ! i ! j ! k
        = int (length (filter
            (\<lambda>g. float_grid_cell fp coord_min grid_side_length g = (int i, int j, int k))
            galaxy_coords))"
    using a'(3) by (simp add: filter_map comp_def)
  ultimately show "\<exists>ngal. mesh_galaxies fp galaxy_coords coord_min grid_side_length
                             (int nx, int ny, int nz) = Inr ngal
                    \<and> has_shape3 ngal nx ny nz
                    \<and> (\<forall>i<nx. \<forall>j<ny. \<forall>k<nz.
                          ngal ! i ! j ! k
                            = int (length (filter
                                (\<lambda>g. float_grid_cell fp coord_min grid_side_length g
                                       = (int i, int j, int k))
                                galaxy_coords)))"
    using a'(2) by blast
qed

lemma exact_sign_unit: "sign_unit exact_fpu"
  by (simp add: sign_unit_def exact_rnd_def)

theorem mesh_cells_floor_witness:
  "mesh_galaxies_dict exact_fpu [(Fin 1, Fin 1, Fin 1), (Fin 3, Fin 1, Fin 1)]
     (Fin 0, Fin 0, Fin 0) (Fin 2) (0, 0, 0) = Some 1
   \<and> mesh_galaxies_dict exact_fpu [(Fin 1, Fin 1, Fin 1), (Fin 3, Fin 1, Fin 1)]
     (Fin 0, Fin 0, Fin 0) (Fin 2) (1, 0, 0) = Some 1
   \<and> mesh_galaxies_dict exact_fpu [(Fin 1, Fin 1, Fin 1), (Fin 3, Fin 1, Fin 1)]
     (Fin 0, Fin 0, Fin 0) (Fin 2) (2, 0, 0) = None
   \<and> (\<exists>ngal. mesh_galaxies exact_fpu [(Fin 1, Fin 1, Fin 1), (Fin 3, Fin 1, Fin 1)]
                 (Fin 0, Fin 0, Fin 0) (Fin 2) (int 2, int 1, int 1) = Inr ngal
           \<and> ngal ! 0 ! 0 ! 0 = 1 \<and> ngal ! 1 ! 0 ! 0 = 1)"
proof -
  let ?gals = "[(Fin 1, Fin 1, Fin 1), (Fin 3, Fin 1, Fin 1)] :: point list"
  let ?m = "(Fin 0, Fin 0, Fin 0) :: point"
  have q: "quotient exact_fpu (Fin 0) (Fin 2) (Fin 1) = Fin (1 / 2)"
    "quotient exact_fpu (Fin 0) (Fin 2) (Fin 3) = Fin (3 / 2)"
    by (simp_all add: quotient_def exact_quotients)
  have c: "float_grid_cell exact_fpu ?m (Fin 2) (Fin 1, Fin 1, Fin 1) = (0, 0, 0)"
    "float_grid_cell exact_fpu ?m (Fin 2) (Fin 3, Fin 1, Fin 1) = (1, 0, 0)"
    by (simp_all add: float_grid_cell_def q floor_eq_iff)
  have h2: "ffinite (Fin 2)" and h3: "0 < fval (Fin 2)" by simp_all
  have h4: "\<forall>g\<in>set ?gals. coords_ge g ?m \<and> quotients_castable exact_fpu ?m (Fin 2) g"
    by (simp add: coords_ge_def coord_ge_def quotients_castable_def castable_def q)
  have h5: "\<forall>g\<in>set ?gals.
      cell_in_grid (int 2, int 1, int 1) (float_grid_cell exact_fpu ?m (Fin 2) g)"
    by (simp add: c cell_in_grid_def)
  note t = mesh_cells_floor [OF exact_sign_unit h2 h3 h4, of 2 1 1]
  from t h5 obtain ngal where n:
    "mesh_galaxies exact_fpu ?gals ?m (Fin 2) (int 2, int 1, int 1) = Inr ngal"
    "\<forall>i<2. \<forall>j<1. \<forall>k<1. ngal ! i ! j ! k
        = int (length (filter (\<lambda>g. float_grid_cell exact_fpu ?m (Fin 2) g
                                    = (int i, int j, int k)) ?gals))"
    by blast
  have "ngal ! 0 ! 0 ! 0 = 1" "ngal ! 1 ! 0 ! 0 = 1"
    using n(2) by (simp_all add: c)
  moreover have "mesh_galaxies_dict exact_fpu ?gals ?m (Fin 2) (0, 0, 0) = Some 1"
    "mesh_galaxies_dict exact_fpu ?gals ?m (Fin 2) (1, 0, 0) = Some 1"
    "mesh_galaxies_dict exact_fpu ?gals ?m (Fin 2) (2, 0, 0) = None"
    using t by (simp_all add: c)
  ultimately show ?thesis using n(1) by blast
qed

text \<open>
  Claim C7 at a failing input. \<open>mesh_galaxies\<close> returns the counts alone: for two
  galaxies in two different cells it returns the same array whichever of them comes first,
  so the index of the galaxy stored in a cell cannot be recovered from what it returns.
\<close>

theorem mesh_galaxies_returns_counts_only:
  "mesh_galaxies exact_fpu [(Fin 1, Fin 1, Fin 1), (Fin 3, Fin 1, Fin 1)]
     (Fin 0, Fin 0, Fin 0) (Fin 2) (2, 1, 1) = Inr [[[1]], [[1]]]
   \<and> mesh_galaxies exact_fpu [(Fin 3, Fin 1, Fin 1), (Fin 1, Fin 1, Fin 1)]
     (Fin 0, Fin 0, Fin 0) (Fin 2) (2, 1, 1) = Inr [[[1]], [[1]]]"
  by (simp add: mesh_galaxies_def zeros3_def table_dtype_cast_int_def table_divide_def
      subtract_row_def exact_quotients trunc_half incr3_def getitem_def setitem_def
      numeral_2_eq_2)

end
